theory Spec2Isabelle
  imports Complex_Main
begin

section \<open>Cells, columns and tables\<close>

text \<open>
  The source (\<^verbatim>\<open>findatapy/timeseries/calculations.py\<close>, class \<^verbatim>\<open>Calculations\<close>) works on
  DataFrames of the table library: a row index of timestamps, a list of column labels and
  one column of cells per label. A cell is a number or the missing marker NaN. Numbers are
  modelled as exact reals (rounding is not modelled) and NaN as \<open>None\<close>: arithmetic on a
  missing cell is missing, and every comparison with a missing cell is false.

  A column label is a string; a label can also be a number (the table library takes the
  values of a column as labels when a column is assigned to \<^verbatim>\<open>columns\<close>).
\<close>

type_synonym cell = "real option"

datatype label = Name string | Num cell

record data_frame =
  index :: "int list"
  columns :: "label list"
  data :: "cell list list"

text \<open>Errors the source can raise, as values.\<close>

datatype error = TypeError | ValueError | AttributeError | KeyError | IndexError

text \<open>
  The data model of the specification: one column of cells per label, every column as long
  as the index, labels unique, timestamps strictly increasing.
\<close>

definition wf_df :: "data_frame \<Rightarrow> bool" where
  "wf_df df \<longleftrightarrow>
     length (data df) = length (columns df) \<and>
     list_all (\<lambda>c. length c = length (index df)) (data df) \<and>
     distinct (columns df) \<and>
     sorted_wrt (<) (index df)"

text \<open>
  Two tables are aligned when they have the same index and the same column labels. The
  arithmetic of the table library first aligns its operands on their labels; on aligned
  operands that step changes nothing and the operation is cell by cell, which is what the
  definitions below compute. The statements about the cells of a result assume aligned
  operands.
\<close>

definition aligned :: "data_frame \<Rightarrow> data_frame \<Rightarrow> bool" where
  "aligned a b \<longleftrightarrow> index a = index b \<and> columns a = columns b"

definition cell_at :: "data_frame \<Rightarrow> nat \<Rightarrow> nat \<Rightarrow> cell" where
  "cell_at df j t = data df ! j ! t"

subsection \<open>Cell arithmetic\<close>

fun cell_op :: "(real \<Rightarrow> real \<Rightarrow> real) \<Rightarrow> cell \<Rightarrow> cell \<Rightarrow> cell" where
  "cell_op f (Some x) (Some y) = Some (f x y)"
| "cell_op f _ _ = None"

definition cell_sub :: "cell \<Rightarrow> cell \<Rightarrow> cell" where
  "cell_sub = cell_op (-)"

definition cell_mul :: "cell \<Rightarrow> cell \<Rightarrow> cell" where
  "cell_mul = cell_op (*)"

definition cell_abs :: "cell \<Rightarrow> cell" where
  "cell_abs = map_option abs"

definition cell_scale :: "real \<Rightarrow> cell \<Rightarrow> cell" where
  "cell_scale k = map_option (\<lambda>x. x * k)"

text \<open>Comparisons with a scalar: false on a missing cell.\<close>

fun cell_gt :: "cell \<Rightarrow> real \<Rightarrow> bool" where
  "cell_gt (Some x) k = (x > k)"
| "cell_gt None k = False"

fun cell_lt :: "cell \<Rightarrow> real \<Rightarrow> bool" where
  "cell_lt (Some x) k = (x < k)"
| "cell_lt None k = False"

fun cell_eq :: "cell \<Rightarrow> real \<Rightarrow> bool" where
  "cell_eq (Some x) k = (x = k)"
| "cell_eq None k = False"

subsection \<open>Column and table operations of the table library\<close>

text \<open>
  \<^verbatim>\<open>shift(n)\<close> moves the values \<open>n\<close> rows down the index (up for a negative \<open>n\<close>); the
  index stays, the rows that have no source become missing.
\<close>

definition shift_col :: "int \<Rightarrow> cell list \<Rightarrow> cell list" where
  "shift_col n xs =
     (if 0 \<le> n then take (length xs) (replicate (nat n) None @ xs)
      else drop (nat (- n)) xs @ replicate (min (nat (- n)) (length xs)) None)"

definition col_op :: "(cell \<Rightarrow> cell \<Rightarrow> cell) \<Rightarrow> cell list \<Rightarrow> cell list \<Rightarrow> cell list" where
  "col_op f xs ys = map (\<lambda>(x, y). f x y) (zip xs ys)"

definition df_shift :: "int \<Rightarrow> data_frame \<Rightarrow> data_frame" where
  "df_shift n df = df\<lparr>data := map (shift_col n) (data df)\<rparr>"

definition df_op :: "(cell \<Rightarrow> cell \<Rightarrow> cell) \<Rightarrow> data_frame \<Rightarrow> data_frame \<Rightarrow> data_frame" where
  "df_op f a b = a\<lparr>data := map (\<lambda>(xs, ys). col_op f xs ys) (zip (data a) (data b))\<rparr>"

definition df_sub :: "data_frame \<Rightarrow> data_frame \<Rightarrow> data_frame" where
  "df_sub = df_op cell_sub"

definition df_mul :: "data_frame \<Rightarrow> data_frame \<Rightarrow> data_frame" where
  "df_mul = df_op cell_mul"

definition df_abs :: "data_frame \<Rightarrow> data_frame" where
  "df_abs df = df\<lparr>data := map (map cell_abs) (data df)\<rparr>"

definition df_multiply :: "real \<Rightarrow> data_frame \<Rightarrow> data_frame" where
  "df_multiply k df = df\<lparr>data := map (map (cell_scale k)) (data df)\<rparr>"

section \<open>Strategy returns and transaction costs\<close>

text \<open>
  \<^verbatim>\<open>calculate_signal_tc\<close>:
  \<^verbatim>\<open>(signal_data_frame.shift(period_shift) - signal_data_frame).abs().multiply(tc)\<close>.
\<close>

definition calculate_signal_tc :: "data_frame \<Rightarrow> real \<Rightarrow> int \<Rightarrow> data_frame" where
  "calculate_signal_tc signal_data_frame tc period_shift =
     df_multiply tc (df_abs (df_sub (df_shift period_shift signal_data_frame) signal_data_frame))"

text \<open>
  \<^verbatim>\<open>calculate_signal_returns\<close>:
  \<^verbatim>\<open>signal_data_frame.shift(period_shift) * returns_data_frame\<close>.
\<close>

definition calculate_signal_returns :: "data_frame \<Rightarrow> data_frame \<Rightarrow> int \<Rightarrow> data_frame" where
  "calculate_signal_returns signal_data_frame returns_data_frame period_shift =
     df_mul (df_shift period_shift signal_data_frame) returns_data_frame"

text \<open>
  \<^verbatim>\<open>calculate_signal_returns_with_tc\<close>: the costs of \<^verbatim>\<open>calculate_signal_tc\<close> are subtracted
  from the shifted signal times the returns.
\<close>

definition calculate_signal_returns_with_tc ::
  "data_frame \<Rightarrow> data_frame \<Rightarrow> real \<Rightarrow> int \<Rightarrow> data_frame" where
  "calculate_signal_returns_with_tc signal_data_frame returns_data_frame tc period_shift =
     (let tc_costs = calculate_signal_tc signal_data_frame tc period_shift
      in df_sub (df_mul (df_shift period_shift signal_data_frame) returns_data_frame) tc_costs)"

text \<open>
  \<^verbatim>\<open>calculate_trade_no\<close>: \<^verbatim>\<open>trades = abs(signal - signal.shift(-1))\<close>, then
  \<^verbatim>\<open>trades[trades > 0].count()\<close>, the number of cells above zero in each column. The result
  is a one-column table (column \<^verbatim>\<open>Trades\<close>) whose row labels are the signal's column labels;
  it is modelled as the list of (label, count) pairs.
\<close>

definition calculate_trade_no :: "data_frame \<Rightarrow> (label \<times> nat) list" where
  "calculate_trade_no signal_data_frame =
     (let trades = df_abs (df_sub signal_data_frame (df_shift (- 1) signal_data_frame))
      in zip (columns trades) (map (\<lambda>col. length (filter (\<lambda>c. cell_gt c 0) col)) (data trades)))"

text \<open>The rows of a table up to and including row \<open>T\<close>, column by column.\<close>

definition rows_upto :: "nat \<Rightarrow> data_frame \<Rightarrow> cell list list" where
  "rows_upto T df = map (take (Suc T)) (data df)"

section \<open>The scenario of the specification\<close>

definition scenario_signal :: data_frame where
  "scenario_signal =
     \<lparr>index = [0, 1, 2, 3, 4, 5], columns = [Name ''x''],
      data = [[Some 0, Some 1, Some 1, Some 1, Some 0, Some (- 1)]]\<rparr>"

definition scenario_returns :: data_frame where
  "scenario_returns =
     \<lparr>index = [0, 1, 2, 3, 4, 5], columns = [Name ''x''],
      data = [[Some 0, Some 0.01, Some 0.02, Some (- 0.01), Some 0, Some 0.03]]\<rparr>"

text \<open>
  The formula the specification gives for the strategy return with transaction costs, at
  column \<open>j\<close> and row \<open>t\<close>:
  \<^verbatim>\<open>signal[t-shift] * returns[t] - |signal[t-shift] - signal[t-shift-1]| * tc\<close>.
\<close>

definition spec_strategy_return ::
  "data_frame \<Rightarrow> data_frame \<Rightarrow> real \<Rightarrow> nat \<Rightarrow> nat \<Rightarrow> nat \<Rightarrow> cell" where
  "spec_strategy_return signal returns tc shift j t =
     cell_sub (cell_mul (cell_at signal j (t - shift)) (cell_at returns j t))
       (cell_scale tc (cell_abs
          (cell_sub (cell_at signal j (t - shift)) (cell_at signal j (t - shift - 1)))))"

text \<open>Three periods: flat, then long for two periods; the asset does not move.\<close>

definition entry_signal :: data_frame where
  "entry_signal = \<lparr>index = [0, 1, 2], columns = [Name ''x''], data = [[Some 0, Some 1, Some 1]]\<rparr>"

definition flat_returns :: data_frame where
  "flat_returns = \<lparr>index = [0, 1, 2], columns = [Name ''x''], data = [[Some 0, Some 0, Some 0]]\<rparr>"

text \<open>The same signal, changed in the last period only.\<close>

definition entry_signal_late :: data_frame where
  "entry_signal_late =
     \<lparr>index = [0, 1, 2], columns = [Name ''x''], data = [[Some 0, Some 1, Some (- 1)]]\<rparr>"

definition some_returns :: data_frame where
  "some_returns =
     \<lparr>index = [0, 1, 2], columns = [Name ''x''], data = [[Some 0.01, Some 0.02, Some 0.03]]\<rparr>"

section \<open>Segments: reset points and their running sum\<close>

text \<open>
  \<^verbatim>\<open>cumsum\<close> and \<^verbatim>\<open>cumprod\<close> of the table library run down each column and skip missing
  cells: a missing cell stays missing and does not change the running value.
\<close>

fun cumsum_from :: "real \<Rightarrow> cell list \<Rightarrow> cell list" where
  "cumsum_from a [] = []"
| "cumsum_from a (None # xs) = None # cumsum_from a xs"
| "cumsum_from a (Some x # xs) = Some (a + x) # cumsum_from (a + x) xs"

definition cumsum_col :: "cell list \<Rightarrow> cell list" where
  "cumsum_col = cumsum_from 0"

fun cumprod_from :: "real \<Rightarrow> cell list \<Rightarrow> cell list" where
  "cumprod_from a [] = []"
| "cumprod_from a (None # xs) = None # cumprod_from a xs"
| "cumprod_from a (Some x # xs) = Some (a * x) # cumprod_from (a * x) xs"

definition cumprod_col :: "cell list \<Rightarrow> cell list" where
  "cumprod_col = cumprod_from 1"

definition df_cumsum :: "data_frame \<Rightarrow> data_frame" where
  "df_cumsum df = df\<lparr>data := map cumsum_col (data df)\<rparr>"

text \<open>
  The first lines of \<^verbatim>\<open>calculate_cum_rets_trades\<close> and of
  \<^verbatim>\<open>calculate_final_trade_duration\<close> are the same:
  \<^verbatim>\<open>signal_data_frame_pushed = signal_data_frame.shift(1)\<close>,
  \<^verbatim>\<open>reset_points = ((signal_data_frame_pushed - signal_data_frame_pushed.shift(1)).abs())\<close>,
  \<^verbatim>\<open>reset_points = reset_points.cumsum()\<close>.
  \<open>trade_points\<close> is \<^verbatim>\<open>reset_points\<close> before the running sum, \<open>reset_points\<close> after it (the
  segment ids).
\<close>

definition trade_points :: "data_frame \<Rightarrow> data_frame" where
  "trade_points signal_data_frame =
     (let signal_data_frame_pushed = df_shift 1 signal_data_frame
      in df_abs (df_sub signal_data_frame_pushed (df_shift 1 signal_data_frame_pushed)))"

definition reset_points :: "data_frame \<Rightarrow> data_frame" where
  "reset_points signal_data_frame = df_cumsum (trade_points signal_data_frame)"

text \<open>The sum of the cells of a column that are not missing.\<close>

definition sum_defined :: "cell list \<Rightarrow> real" where
  "sum_defined xs = sum_list (map (\<lambda>c. case c of None \<Rightarrow> 0 | Some x \<Rightarrow> x) xs)"

text \<open>A signal that turns from long to short after the second period.\<close>

definition flip_signal :: data_frame where
  "flip_signal =
     \<lparr>index = [0, 1, 2, 3], columns = [Name ''x''],
      data = [[Some 1, Some 1, Some (- 1), Some (- 1)]]\<rparr>"

subsection \<open>Columns by label\<close>

text \<open>
  \<^verbatim>\<open>df[c]\<close> reads the column labelled \<open>c\<close> (KeyError when there is none);
  \<^verbatim>\<open>df[c] = col\<close> overwrites the column labelled \<open>c\<close>, or appends a new last column when
  no column has that label; \<^verbatim>\<open>df.drop([c], axis=1)\<close> is a new table without the column;
  \<^verbatim>\<open>df.columns = labels\<close> relabels in place and raises ValueError when the number of labels
  is not the number of columns.
\<close>

definition df_getitem :: "data_frame \<Rightarrow> label \<Rightarrow> error + cell list" where
  "df_getitem df c =
     (case map_of (zip (columns df) (data df)) c of None \<Rightarrow> Inl KeyError | Some col \<Rightarrow> Inr col)"

definition df_setitem :: "data_frame \<Rightarrow> label \<Rightarrow> cell list \<Rightarrow> data_frame" where
  "df_setitem df c col =
     (if c \<in> set (columns df)
      then df\<lparr>data := map (\<lambda>(l, d). if l = c then col else d) (zip (columns df) (data df))\<rparr>
      else df\<lparr>columns := columns df @ [c], data := data df @ [col]\<rparr>)"

definition df_drop :: "data_frame \<Rightarrow> label \<Rightarrow> error + data_frame" where
  "df_drop df c =
     (if c \<in> set (columns df)
      then Inr (df\<lparr>columns := filter (\<lambda>l. l \<noteq> c) (columns df),
                    data := map snd (filter (\<lambda>(l, d). l \<noteq> c) (zip (columns df) (data df)))\<rparr>)
      else Inl KeyError)"

definition df_set_columns :: "data_frame \<Rightarrow> label list \<Rightarrow> error + data_frame" where
  "df_set_columns df labels =
     (if length labels = length (columns df) then Inr (df\<lparr>columns := labels\<rparr>)
      else Inl ValueError)"

text \<open>\<^verbatim>\<open>c + 'cumsum'\<close>: string concatenation; a numeric label and a string do not add.\<close>

fun label_add :: "label \<Rightarrow> string \<Rightarrow> error + label" where
  "label_add (Name s) suffix = Inr (Name (s @ suffix))"
| "label_add (Num v) suffix = Inl TypeError"

text \<open>
  \<^verbatim>\<open>df.groupby([k])[c].cumsum()\<close>: the running sum of column \<open>c\<close> within each group of
  equal values of the key column \<open>k\<close>, in row order. A row whose key is missing belongs to
  no group and gets a missing result; a missing value is skipped. \<open>acc\<close> holds the running
  sum of every key.
\<close>

fun group_cumsum :: "(real \<Rightarrow> real) \<Rightarrow> cell list \<Rightarrow> cell list \<Rightarrow> cell list" where
  "group_cumsum acc (None # ks) (v # vs) = None # group_cumsum acc ks vs"
| "group_cumsum acc (Some k # ks) (None # vs) = None # group_cumsum acc ks vs"
| "group_cumsum acc (Some k # ks) (Some x # vs) =
     Some (acc k + x) # group_cumsum (acc(k := acc k + x)) ks vs"
| "group_cumsum acc _ _ = []"

text \<open>
  The loop shared by \<^verbatim>\<open>calculate_cum_rets_trades\<close> (suffix \<^verbatim>\<open>cumsum\<close>) and
  \<^verbatim>\<open>calculate_final_trade_duration\<close> (suffix \<^verbatim>\<open>cumperiods\<close>), one column \<open>c\<close> of
  \<^verbatim>\<open>reset_points\<close> at a time:
  \<^verbatim>\<open>df[c + suffix] = reset_points[c]\<close>,
  \<^verbatim>\<open>df[c] = df.groupby([c + suffix])[c].cumsum()\<close>,
  \<^verbatim>\<open>df = df.drop([c + suffix], axis=1)\<close>.
  The two assignments change the table in place, the drop makes a new table. One step
  returns both: the outcome (the new table, or the error raised) and the table the step
  was given, as the assignments left it.
\<close>

definition group_step ::
  "string \<Rightarrow> data_frame \<Rightarrow> label \<Rightarrow> data_frame \<Rightarrow> (error + data_frame) \<times> data_frame" where
  "group_step suffix rp c df =
     (case df_getitem rp c of
        Inl e \<Rightarrow> (Inl e, df)
      | Inr ids \<Rightarrow>
          (case label_add c suffix of
             Inl e \<Rightarrow> (Inl e, df)
           | Inr k \<Rightarrow>
               (let df1 = df_setitem df k ids
                in case df_getitem df1 k of
                     Inl e \<Rightarrow> (Inl e, df1)
                   | Inr keys \<Rightarrow>
                       (case df_getitem df1 c of
                          Inl e \<Rightarrow> (Inl e, df1)
                        | Inr vals \<Rightarrow>
                            (let df2 = df_setitem df1 c (group_cumsum (\<lambda>_. 0) keys vals)
                             in (df_drop df2 k, df2))))))"

fun group_loop :: "string \<Rightarrow> data_frame \<Rightarrow> label list \<Rightarrow> data_frame \<Rightarrow> error + data_frame" where
  "group_loop suffix rp [] df = Inr df"
| "group_loop suffix rp (c # cs) df =
     (case fst (group_step suffix rp c df) of
        Inl e \<Rightarrow> Inl e
      | Inr df3 \<Rightarrow> group_loop suffix rp cs df3)"


section \<open>Trade durations\<close>


text \<open>
  \<^verbatim>\<open>calculate_final_trade_duration\<close>: a table of ones with the signal's index and columns,
  summed within each segment id, column by column.
\<close>

definition calculate_final_trade_duration :: "data_frame \<Rightarrow> error + data_frame" where
  "calculate_final_trade_duration signal_data_frame =
     (let signal_data_frame_pushed = df_shift 1 signal_data_frame;
          rp = reset_points signal_data_frame;
          time_data_frame =
            \<lparr>index = index signal_data_frame, columns = columns signal_data_frame,
             data = replicate (length (columns signal_data_frame))
                      (replicate (length (index signal_data_frame)) (Some 1))\<rparr>;
          old_cols = columns time_data_frame
      in case df_set_columns time_data_frame (columns signal_data_frame_pushed) of
           Inl e \<Rightarrow> Inl e
         | Inr tdf \<Rightarrow>
             (case group_loop ''cumperiods'' rp (columns rp) tdf of
                Inl e \<Rightarrow> Inl e
              | Inr tdf' \<Rightarrow> df_set_columns tdf' old_cols))"

text \<open>
  The count of the periods of each trade, written as one pass down a column of the
  signal, to state what \<^verbatim>\<open>calculate_final_trade_duration\<close> returns. The change at row
  \<open>t\<close> is \<open>|signal[t-1] - signal[t-2]|\<close>, missing when one of the two cells is missing
  or \<open>t < 2\<close>. The count is 1 at a row whose change is not zero, one more than the count
  before it at a row whose change is zero, and missing at a row whose change is missing;
  before the first change that is not zero it starts from 0.
\<close>

fun delta_cell :: "cell \<Rightarrow> cell \<Rightarrow> cell" where
  "delta_cell (Some x) (Some y) = Some \<bar>x - y\<bar>"
| "delta_cell _ _ = None"

definition signal_deltas :: "cell list \<Rightarrow> cell list" where
  "signal_deltas col =
     map (\<lambda>t. if t < 2 then None else delta_cell (col ! (t - 1)) (col ! (t - 2)))
       [0..<length col]"




section \<open>Cumulative returns of each trade\<close>

text \<open>
  \<^verbatim>\<open>calculate_cum_rets_trades\<close>. After the segment ids the source reads
  \<^verbatim>\<open>old_cols = strategy_returns_data_frame.columnsii\<close>. A DataFrame has no attribute
  \<^verbatim>\<open>columnsii\<close>; attribute access then looks for a column of that label and raises
  AttributeError when there is none.
\<close>

definition df_getattr :: "data_frame \<Rightarrow> string \<Rightarrow> error + cell list" where
  "df_getattr df name =
     (case df_getitem df (Name name) of Inl e \<Rightarrow> Inl AttributeError | Inr col \<Rightarrow> Inr col)"

text \<open>
  The function assigns to the table it was given, so the model returns two things: the
  outcome (the table returned, or the error raised) and the caller's returns table as the
  call leaves it. The relabelling and the two assignments of the first round of the loop
  are made on the caller's table; after the first \<^verbatim>\<open>drop\<close> the local name is bound to a new
  table. When \<^verbatim>\<open>columnsii\<close> is a column, \<^verbatim>\<open>old_cols\<close> is that column and the last line takes
  its cells as the new labels.
\<close>

definition calculate_cum_rets_trades ::
  "data_frame \<Rightarrow> data_frame \<Rightarrow> (error + data_frame) \<times> data_frame" where
  "calculate_cum_rets_trades signal_data_frame strategy_returns_data_frame =
     (let signal_data_frame_pushed = df_shift 1 signal_data_frame;
          rp = reset_points signal_data_frame
      in case df_getattr strategy_returns_data_frame ''columnsii'' of
           Inl e \<Rightarrow> (Inl e, strategy_returns_data_frame)
         | Inr old_cols \<Rightarrow>
             (case df_set_columns strategy_returns_data_frame (columns signal_data_frame_pushed) of
                Inl e \<Rightarrow> (Inl e, strategy_returns_data_frame)
              | Inr df0 \<Rightarrow>
                  (case columns rp of
                     [] \<Rightarrow>
                       (case df_set_columns df0 (map Num old_cols) of
                          Inl e \<Rightarrow> (Inl e, df0)
                        | Inr df' \<Rightarrow> (Inr df', df'))
                   | c # cs \<Rightarrow>
                       (case group_step ''cumsum'' rp c df0 of
                          (Inl e, df2) \<Rightarrow> (Inl e, df2)
                        | (Inr df3, df2) \<Rightarrow>
                            (case group_loop ''cumsum'' rp cs df3 of
                               Inl e \<Rightarrow> (Inl e, df2)
                             | Inr df' \<Rightarrow> (df_set_columns df' (map Num old_cols), df2))))))"

section \<open>The multiplicative index\<close>

text \<open>
  \<^verbatim>\<open>create_mult_index\<close>: \<^verbatim>\<open>df = 100.0 * (1.0 + df_rets).cumprod()\<close>, then for every column
  \<^verbatim>\<open>df.loc[df[c].first_valid_index(), c] = 100\<close>. \<^verbatim>\<open>first_valid_index\<close> is the index
  label of the first row that is not missing, and \<^verbatim>\<open>None\<close> for a column with no such row.
  The assignment overwrites the rows that carry that label. With \<^verbatim>\<open>None\<close> as the row
  label the result is no table of this model (\<^verbatim>\<open>None\<close> is not a timestamp), so
  the model returns no table then.
\<close>

fun first_valid :: "cell list \<Rightarrow> nat option" where
  "first_valid [] = None"
| "first_valid (Some x # xs) = Some 0"
| "first_valid (None # xs) = map_option Suc (first_valid xs)"

definition first_valid_index :: "int list \<Rightarrow> cell list \<Rightarrow> int option" where
  "first_valid_index idx col =
     (case first_valid col of
        None \<Rightarrow> None
      | Some i \<Rightarrow> (if i < length idx then Some (idx ! i) else None))"

definition loc_set :: "int list \<Rightarrow> int \<Rightarrow> cell \<Rightarrow> cell list \<Rightarrow> cell list" where
  "loc_set idx k v col = map (\<lambda>(i, c). if i = k then v else c) (zip idx col)"

definition mult_index_col :: "int list \<Rightarrow> cell list \<Rightarrow> cell list option" where
  "mult_index_col idx rets =
     (let col = map (cell_scale 100) (cumprod_col (map (map_option (\<lambda>r. 1 + r)) rets))
      in case first_valid_index idx col of
           None \<Rightarrow> None
         | Some k \<Rightarrow> Some (loc_set idx k (Some 100) col))"

fun sequence_option :: "'a option list \<Rightarrow> 'a list option" where
  "sequence_option [] = Some []"
| "sequence_option (None # xs) = None"
| "sequence_option (Some x # xs) = map_option ((#) x) (sequence_option xs)"

definition create_mult_index :: "data_frame \<Rightarrow> data_frame option" where
  "create_mult_index df_rets =
     map_option (\<lambda>d. df_rets\<lparr>data := d\<rparr>)
       (sequence_option (map (mult_index_col (index df_rets)) (data df_rets)))"

text \<open>
  The product of \<open>1 + r\<close> over the returns \<open>r\<close> of a column that are not missing.
\<close>

definition growth :: "cell list \<Rightarrow> real" where
  "growth rets = prod_list (map (\<lambda>c. case c of None \<Rightarrow> 1 | Some r \<Rightarrow> 1 + r) rets)"

text \<open>An asset that doubles and then halves.\<close>

definition double_half_returns :: data_frame where
  "double_half_returns =
     \<lparr>index = [0, 1], columns = [Name ''x''], data = [[Some 1, Some (- (1 / 2))]]\<rparr>"

section \<open>The static risk-stop overlay\<close>

text \<open>
  A stop level is a number or a table of levels. Comparing two tables needs identical
  labels (ValueError otherwise) and is cell by cell; a comparison with a missing cell is
  false.
\<close>

datatype level = Scalar real | Frame data_frame

fun cell_gt2 :: "cell \<Rightarrow> cell \<Rightarrow> bool" where
  "cell_gt2 (Some x) (Some y) = (x > y)"
| "cell_gt2 _ _ = False"

fun cell_lt2 :: "cell \<Rightarrow> cell \<Rightarrow> bool" where
  "cell_lt2 (Some x) (Some y) = (x < y)"
| "cell_lt2 _ _ = False"

definition mask2 :: "('a \<Rightarrow> 'b \<Rightarrow> 'c) \<Rightarrow> 'a list list \<Rightarrow> 'b list list \<Rightarrow> 'c list list" where
  "mask2 f a b = map (\<lambda>(xs, ys). map (\<lambda>(x, y). f x y) (zip xs ys)) (zip a b)"

definition df_gt :: "data_frame \<Rightarrow> level \<Rightarrow> error + bool list list" where
  "df_gt df lv =
     (case lv of
        Scalar k \<Rightarrow> Inr (map (map (\<lambda>c. cell_gt c k)) (data df))
      | Frame f \<Rightarrow>
          (if index f = index df \<and> columns f = columns df
           then Inr (mask2 cell_gt2 (data df) (data f)) else Inl ValueError))"

definition df_lt :: "data_frame \<Rightarrow> level \<Rightarrow> error + bool list list" where
  "df_lt df lv =
     (case lv of
        Scalar k \<Rightarrow> Inr (map (map (\<lambda>c. cell_lt c k)) (data df))
      | Frame f \<Rightarrow>
          (if index f = index df \<and> columns f = columns df
           then Inr (mask2 cell_lt2 (data df) (data f)) else Inl ValueError))"

text \<open>
  \<^verbatim>\<open>df[mask] = v\<close> overwrites, in place, the cells where the mask is true.
  \<^verbatim>\<open>ffill\<close> replaces a missing cell by the last cell above it that is not missing.
\<close>

definition df_mask_set :: "data_frame \<Rightarrow> bool list list \<Rightarrow> cell \<Rightarrow> data_frame" where
  "df_mask_set df msk v = df\<lparr>data := mask2 (\<lambda>c m. if m then v else c) (data df) msk\<rparr>"

fun ffill_from :: "cell \<Rightarrow> cell list \<Rightarrow> cell list" where
  "ffill_from prev [] = []"
| "ffill_from prev (None # xs) = prev # ffill_from prev xs"
| "ffill_from prev (Some x # xs) = Some x # ffill_from (Some x) xs"

definition ffill_col :: "cell list \<Rightarrow> cell list" where
  "ffill_col = ffill_from None"

definition df_ffill :: "data_frame \<Rightarrow> data_frame" where
  "df_ffill df = df\<lparr>data := map ffill_col (data df)\<rparr>"

text \<open>
  \<^verbatim>\<open>calculate_risk_stop_signals\<close>. \<^verbatim>\<open>ind\<close> is true where a stop condition holds:
  \<^verbatim>\<open>(cum_rets_trades > take_profit) | (cum_rets_trades < stop_loss)\<close>; its columns are
  relabelled with the signal's (ValueError when the numbers of columns differ).
  \<^verbatim>\<open>signal_data_frame[ind] = 0\<close> and \<^verbatim>\<open>signal_data_frame[reset_points == 0] = numpy.nan\<close>
  assign to the table the caller passed; \<^verbatim>\<open>signal_data_frame.ffill()\<close> is a new table,
  which is returned. The model returns the pair of the returned table and the caller's
  signal table as the call leaves it. Both errors are raised before the first assignment.
\<close>

definition stop_ind :: "data_frame \<Rightarrow> level \<Rightarrow> level \<Rightarrow> error + bool list list" where
  "stop_ind cum_rets_trades stop_loss take_profit =
     (case df_gt cum_rets_trades take_profit of
        Inl e \<Rightarrow> Inl e
      | Inr gt \<Rightarrow>
          (case df_lt cum_rets_trades stop_loss of
             Inl e \<Rightarrow> Inl e
           | Inr lt \<Rightarrow> Inr (mask2 (\<or>) gt lt)))"

definition calculate_risk_stop_signals ::
  "data_frame \<Rightarrow> data_frame \<Rightarrow> level \<Rightarrow> level \<Rightarrow> error + (data_frame \<times> data_frame)" where
  "calculate_risk_stop_signals signal_data_frame cum_rets_trades stop_loss take_profit =
     (let signal_data_frame_pushed = signal_data_frame;
          rp = df_abs (df_sub signal_data_frame_pushed (df_shift 1 signal_data_frame_pushed))
      in case stop_ind cum_rets_trades stop_loss take_profit of
           Inl e \<Rightarrow> Inl e
         | Inr ind \<Rightarrow>
             (if length ind \<noteq> length (columns signal_data_frame) then Inl ValueError
              else
                let signal1 = df_mask_set signal_data_frame ind (Some 0);
                    rp1 = df_mask_set rp ind (Some 1);
                    signal2 = df_mask_set signal1 (map (map (\<lambda>c. cell_eq c 0)) (data rp1)) None
                in Inr (df_ffill signal2, signal2)))"

text \<open>
  A table of \<open>n\<close> columns of \<open>m\<close> rows each; a stop level that is a table is
  well-formed as a table.
\<close>

definition has_shape :: "nat \<Rightarrow> nat \<Rightarrow> 'a list list \<Rightarrow> bool" where
  "has_shape n m a \<longleftrightarrow> length a = n \<and> list_all (\<lambda>c. length c = m) a"

definition wf_level :: "level \<Rightarrow> bool" where
  "wf_level lv = (case lv of Scalar k \<Rightarrow> True | Frame f \<Rightarrow> wf_df f)"

text \<open>A signal with a missing cell after a value, and two periods of zero returns.\<close>

definition gap_signal :: data_frame where
  "gap_signal = \<lparr>index = [0, 1], columns = [Name ''x''], data = [[Some 1, None]]\<rparr>"

definition zero_returns :: data_frame where
  "zero_returns = \<lparr>index = [0, 1], columns = [Name ''x''], data = [[Some 0, Some 0]]\<rparr>"

section \<open>Outer joins of a list of tables\<close>

text \<open>
  \<^verbatim>\<open>ldf.join(rdf, how='outer')\<close>: the index of the result is the sorted union of the two
  indices, its columns are those of \<open>ldf\<close> followed by those of \<open>rdf\<close>, each moved to the
  new index with missing cells at the timestamps its table does not have. A column label
  on both sides raises ValueError.
\<close>

definition reindex_col :: "int list \<Rightarrow> int list \<Rightarrow> cell list \<Rightarrow> cell list" where
  "reindex_col old new col =
     map (\<lambda>k. case map_of (zip old col) k of None \<Rightarrow> None | Some v \<Rightarrow> v) new"

definition join_outer :: "data_frame \<Rightarrow> data_frame \<Rightarrow> error + data_frame" where
  "join_outer ldf rdf =
     (if list_ex (\<lambda>c. c \<in> set (columns rdf)) (columns ldf) then Inl ValueError
      else
        let idx = sort (remdups (index ldf @ index rdf))
        in Inr \<lparr>index = idx, columns = columns ldf @ columns rdf,
                data = map (reindex_col (index ldf) idx) (data ldf) @
                       map (reindex_col (index rdf) idx) (data rdf)\<rparr>)"

text \<open>
  \<^verbatim>\<open>functools.reduce(join_dfs, df_list)\<close>: the first element is the start value, the others
  are joined to it from left to right; on an empty list \<^verbatim>\<open>reduce\<close> raises TypeError.
\<close>

fun reduce :: "('a \<Rightarrow> 'a \<Rightarrow> error + 'a) \<Rightarrow> 'a list \<Rightarrow> error + 'a" where
  "reduce f [] = Inl TypeError"
| "reduce f [x] = Inr x"
| "reduce f (x # y # xs) = (case f x y of Inl e \<Rightarrow> Inl e | Inr v \<Rightarrow> reduce f (v # xs))"

definition functional_outer_join :: "data_frame list \<Rightarrow> error + data_frame" where
  "functional_outer_join df_list = reduce join_outer df_list"

text \<open>
  \<^verbatim>\<open>join_aux(i, df_list)\<close>: the last table alone, or the join of tables \<open>i\<close> and \<open>i + 1\<close>.
\<close>

definition join_aux :: "nat \<Rightarrow> data_frame list \<Rightarrow> error + data_frame" where
  "join_aux i df_list =
     (if int i = int (length df_list) - 1 then
        (if i < length df_list then Inr (df_list ! i) else Inl IndexError)
      else if i + 1 < length df_list then join_outer (df_list ! i) (df_list ! (i + 1))
      else Inl IndexError)"

fun collect :: "(error + 'a) list \<Rightarrow> error + 'a list" where
  "collect [] = Inr []"
| "collect (Inl e # rs) = Inl e"
| "collect (Inr v # rs) = (case collect rs of Inl e \<Rightarrow> Inl e | Inr vs \<Rightarrow> Inr (v # vs))"

text \<open>One round: \<^verbatim>\<open>for i in range(0, length, 2): df_list_out.append(self.join_aux(i, df_list))\<close>.\<close>

definition join_round :: "data_frame list \<Rightarrow> error + data_frame list" where
  "join_round df_list =
     collect (map (\<lambda>i. join_aux i df_list) (filter even [0..<length df_list]))"

text \<open>
  The \<^verbatim>\<open>while (True)\<close> loop of \<^verbatim>\<open>iterative_outer_join_second\<close>: it leaves when one table
  is left. On an empty list every round yields the empty list again and the loop does not
  end: not returning is the value \<open>None\<close>.
\<close>

partial_function (option) join_loop :: "data_frame list \<Rightarrow> (error + data_frame) option" where
  "join_loop df_list =
     (if length df_list = 1 then Some (Inr (df_list ! 0))
      else case join_round df_list of
             Inl e \<Rightarrow> Some (Inl e)
           | Inr df_list_out \<Rightarrow> join_loop df_list_out)"

text \<open>
  \<^verbatim>\<open>iterative_outer_join_second\<close>: the argument can be \<^verbatim>\<open>None\<close> and so can elements of
  the list; the result is a table or \<^verbatim>\<open>None\<close>.
\<close>

definition iterative_outer_join_second ::
  "data_frame option list option \<Rightarrow> (error + data_frame option) option" where
  "iterative_outer_join_second arg =
     (case arg of
        None \<Rightarrow> Some (Inr None)
      | Some l \<Rightarrow>
          let df_list = map the (filter (\<lambda>i. i \<noteq> None) l)
          in if length df_list = 0 then Some (Inr None)
             else if length df_list = 1 then Some (Inr (Some (df_list ! 0)))
             else map_option (map_sum id Some) (join_loop df_list))"

text \<open>
  The join of two outcomes: an error on either side stays, two tables are joined. It is
  used to state what a fold of joins computes.
\<close>

fun join_outcomes :: "error + data_frame \<Rightarrow> error + data_frame \<Rightarrow> error + data_frame" where
  "join_outcomes (Inl e) r = Inl e"
| "join_outcomes (Inr a) (Inl e) = Inl e"
| "join_outcomes (Inr a) (Inr b) = join_outer a b"

text \<open>Two more tables, on other timestamps, to join with \<open>entry_signal\<close>.\<close>

definition late_table :: data_frame where
  "late_table = \<lparr>index = [1, 3], columns = [Name ''y''], data = [[Some 5, Some 6]]\<rparr>"

definition sparse_table :: data_frame where
  "sparse_table = \<lparr>index = [0, 3], columns = [Name ''z''], data = [[Some 7, Some 8]]\<rparr>"

text \<open>
  A returns table that has a column labelled \<^verbatim>\<open>columnsii\<close>.
\<close>

definition columnsii_returns :: data_frame where
  "columnsii_returns =
     \<lparr>index = [0, 1], columns = [Name ''columnsii''], data = [[Some 0, Some 0]]\<rparr>"

section \<open>The tables of the caller\<close>

text \<open>
  The tables that a caller holds are kept in a store, a list of tables; the address of a
  table is its position in the list. An operation on the store takes the addresses of
  the tables passed to it and returns the store as the call leaves it, together with its
  outcome. A table that the operation builds and returns is put at the end of the store,
  at the address \<open>length h\<close>; an assignment to a table that was passed in replaces the
  table at its address, so that every holder of the address sees it. Tables that are
  built and dropped inside a call are not kept.
\<close>

type_synonym heap = "data_frame list"


text \<open>
  The store \<open>h'\<close> leaves the store \<open>h\<close> unchanged when every table of \<open>h\<close> is in \<open>h'\<close>
  at its address as it was: \<open>h'\<close> is \<open>h\<close> with new tables added at the end.
\<close>

definition unchanged :: "heap \<Rightarrow> heap \<Rightarrow> bool" where
  "unchanged h h' \<longleftrightarrow> take (length h) h' = h"














section \<open>Basic facts about the table operations\<close>

lemma length_shift_col [simp]: "length (shift_col n xs) = length xs"
  by (auto simp: shift_col_def)

lemma nth_shift_col:
  "0 \<le> n \<Longrightarrow> t < length xs \<Longrightarrow>
     shift_col n xs ! t = (if t < nat n then None else xs ! (t - nat n))"
  by (simp add: shift_col_def nth_append)

lemma length_col_op [simp]: "length (col_op f xs ys) = min (length xs) (length ys)"
  by (simp add: col_op_def)

lemma nth_col_op:
  "t < length xs \<Longrightarrow> t < length ys \<Longrightarrow> col_op f xs ys ! t = f (xs ! t) (ys ! t)"
  by (simp add: col_op_def)

lemma data_df_op [simp]:
  "data (df_op f a b) = map (\<lambda>(xs, ys). col_op f xs ys) (zip (data a) (data b))"
  by (simp add: df_op_def)

lemma data_df_shift [simp]: "data (df_shift n df) = map (shift_col n) (data df)"
  by (simp add: df_shift_def)

lemma data_df_abs [simp]: "data (df_abs df) = map (map cell_abs) (data df)"
  by (simp add: df_abs_def)

lemma data_df_multiply [simp]: "data (df_multiply k df) = map (map (cell_scale k)) (data df)"
  by (simp add: df_multiply_def)

lemma wf_df_col_length:
  "wf_df df \<Longrightarrow> j < length (columns df) \<Longrightarrow> length (data df ! j) = length (index df)"
  by (simp add: wf_df_def list_all_length)

lemma wf_df_data_length: "wf_df df \<Longrightarrow> length (data df) = length (columns df)"
  by (simp add: wf_df_def)

section \<open>Strategy returns with transaction costs\<close>

lemma entry_signal_tc_value:
  "cell_at (calculate_signal_returns_with_tc entry_signal flat_returns 1 1) 0 2 = Some 0"
  by (simp add: cell_at_def calculate_signal_returns_with_tc_def calculate_signal_tc_def
      entry_signal_def flat_returns_def df_sub_def df_mul_def shift_col_def col_op_def
      cell_sub_def cell_mul_def cell_abs_def cell_scale_def)

lemma entry_signal_spec_value:
  "spec_strategy_return entry_signal flat_returns 1 1 0 2 = Some (- 1)"
  by (simp add: spec_strategy_return_def cell_at_def entry_signal_def flat_returns_def
      cell_sub_def cell_mul_def cell_abs_def cell_scale_def)

text \<open>
  C2, as stated, fails. A signal that goes from flat to long at row 1 and stays long, on an
  asset that does not move, with cost rate 1 and shift 1: at row 2 the specification's
  formula charges the entry \<open>|signal[1] - signal[0]| = 1\<close>, the code charges
  \<open>|signal[1] - signal[2]| = 0\<close>.
\<close>

theorem signal_returns_with_tc_spec_formula_refuted:
  "cell_at (calculate_signal_returns_with_tc entry_signal flat_returns 1 1) 0 2 \<noteq>
     spec_strategy_return entry_signal flat_returns 1 1 0 2"
  unfolding entry_signal_tc_value entry_signal_spec_value by simp

text \<open>
  C2, amended: for aligned signal and returns tables, every shift \<open>\<ge> 1\<close> and every cost
  rate \<open>tc\<close>, at every row \<open>t \<ge> shift\<close> of every column the result of
  \<^verbatim>\<open>calculate_signal_returns_with_tc\<close> is
  \<open>signal[t-shift] * returns[t] - |signal[t-shift] - signal[t]| * tc\<close>
  (missing when one of the three cells is missing): the cost is taken on the change of
  the signal between row \<open>t - shift\<close> and row \<open>t\<close>.
\<close>

theorem signal_returns_with_tc_cell:
  assumes "wf_df signal" and "wf_df returns" and "aligned signal returns"
    and "1 \<le> shift" and "j < length (columns signal)"
    and "nat shift \<le> t" and "t < length (index signal)"
  shows "cell_at (calculate_signal_returns_with_tc signal returns tc shift) j t =
     cell_sub (cell_mul (cell_at signal j (t - nat shift)) (cell_at returns j t))
       (cell_scale tc (cell_abs (cell_sub (cell_at signal j (t - nat shift)) (cell_at signal j t))))"
proof -
  have ls: "length (data signal) = length (columns signal)"
    and lr: "length (data returns) = length (columns signal)"
    using assms(1,2,3) by (simp_all add: wf_df_def aligned_def)
  have cs: "length (data signal ! j) = length (index signal)"
    using assms(1,5) by (rule wf_df_col_length)
  have cr: "length (data returns ! j) = length (index signal)"
    using wf_df_col_length[OF assms(2)] assms(3,5) by (simp add: aligned_def)
  show ?thesis
    using assms(4,5,6,7) ls lr cs cr
    by (simp add: cell_at_def calculate_signal_returns_with_tc_def calculate_signal_tc_def
        df_sub_def df_mul_def nth_col_op nth_shift_col)
qed

lemma wf_entry_signal: "wf_df entry_signal"
  by (simp add: wf_df_def entry_signal_def)

lemma wf_flat_returns: "wf_df flat_returns"
  by (simp add: wf_df_def flat_returns_def)

lemma aligned_entry_flat: "aligned entry_signal flat_returns"
  by (simp add: aligned_def entry_signal_def flat_returns_def)

theorem signal_returns_with_tc_cell_witness:
  "wf_df entry_signal \<and> wf_df flat_returns \<and> aligned entry_signal flat_returns \<and>
   cell_at (calculate_signal_returns_with_tc entry_signal flat_returns 1 1) 0 2 = Some 0"
proof -
  have "cell_at (calculate_signal_returns_with_tc entry_signal flat_returns 1 1) 0 2 =
     cell_sub (cell_mul (cell_at entry_signal 0 (2 - nat 1)) (cell_at flat_returns 0 2))
       (cell_scale 1 (cell_abs
          (cell_sub (cell_at entry_signal 0 (2 - nat 1)) (cell_at entry_signal 0 2))))"
    by (rule signal_returns_with_tc_cell[OF wf_entry_signal wf_flat_returns aligned_entry_flat])
      (simp_all add: entry_signal_def)
  then have "cell_at (calculate_signal_returns_with_tc entry_signal flat_returns 1 1) 0 2 = Some 0"
    by (simp add: cell_at_def entry_signal_def flat_returns_def
        cell_sub_def cell_mul_def cell_abs_def cell_scale_def)
  then show ?thesis
    using wf_entry_signal wf_flat_returns aligned_entry_flat by simp
qed

section \<open>The scenario of the specification\<close>

lemma wf_scenario_signal: "wf_df scenario_signal"
  by (simp add: wf_df_def scenario_signal_def)

lemma wf_scenario_returns: "wf_df scenario_returns"
  by (simp add: wf_df_def scenario_returns_def)

lemma scenario_signal_returns_value:
  "data (calculate_signal_returns scenario_signal scenario_returns 1) =
     [[None, Some 0, Some 0.02, Some (- 0.01), Some 0, Some 0]]"
  by (simp add: calculate_signal_returns_def scenario_signal_def scenario_returns_def
      df_mul_def df_op_def df_shift_def shift_col_def col_op_def cell_mul_def)

lemma scenario_signal_returns_tc_value:
  "data (calculate_signal_returns_with_tc scenario_signal scenario_returns 0 1) =
     [[None, Some 0, Some 0.02, Some (- 0.01), Some 0, Some 0]]"
  by (simp add: calculate_signal_returns_with_tc_def calculate_signal_tc_def
      scenario_signal_def scenario_returns_def df_mul_def df_sub_def shift_col_def col_op_def
      cell_mul_def cell_sub_def cell_abs_def cell_scale_def)

lemma scenario_trade_no_value: "calculate_trade_no scenario_signal = [(Name ''x'', 3)]"
  by (simp add: calculate_trade_no_def scenario_signal_def df_sub_def shift_col_def col_op_def
      cell_sub_def cell_abs_def df_abs_def df_op_def df_shift_def)

text \<open>
  C3, as stated, fails: on the scenario's signal and returns, with shift 1, the strategy
  returns are not \<open>[NaN, 0, 0.01, 0.02, -0.01, 0]\<close> and the trade count is not 2.
\<close>

theorem scenario_claimed_values_refuted:
  "data (calculate_signal_returns scenario_signal scenario_returns 1) \<noteq>
     [[None, Some 0, Some 0.01, Some 0.02, Some (- 0.01), Some 0]] \<and>
   calculate_trade_no scenario_signal \<noteq> [(Name ''x'', 2)]"
  by (simp add: scenario_signal_returns_value scenario_trade_no_value)

text \<open>
  C3, amended: on signal \<open>[0, 1, 1, 1, 0, -1]\<close> and returns
  \<open>[0, 0.01, 0.02, -0.01, 0, 0.03]\<close> with shift 1, the strategy returns are
  \<open>[NaN, 0, 0.02, -0.01, 0, 0]\<close> (row \<open>t\<close> is \<open>signal[t-1] * returns[t]\<close>), with and
  without the transaction-cost term at \<open>tc = 0\<close>, and the trade count is 3 (the signal
  changes after rows 0, 3 and 4).
\<close>

theorem scenario_values:
  "data (calculate_signal_returns scenario_signal scenario_returns 1) =
     [[None, Some 0, Some 0.02, Some (- 0.01), Some 0, Some 0]] \<and>
   data (calculate_signal_returns_with_tc scenario_signal scenario_returns 0 1) =
     [[None, Some 0, Some 0.02, Some (- 0.01), Some 0, Some 0]] \<and>
   calculate_trade_no scenario_signal = [(Name ''x'', 3)]"
  by (simp add: scenario_signal_returns_value scenario_signal_returns_tc_value
      scenario_trade_no_value)

section \<open>No look-ahead\<close>

lemma take_shift_col:
  assumes "0 \<le> k" and "take n xs = take n ys"
  shows "take n (shift_col k xs) = take n (shift_col k ys)"
proof (rule nth_equalityI)
  from assms(2) have "length (take n xs) = length (take n ys)" by simp
  then show len: "length (take n (shift_col k xs)) = length (take n (shift_col k ys))"
    by simp
  fix i assume "i < length (take n (shift_col k xs))"
  then have i: "i < n" "i < length xs" "i < length ys"
    using len by (simp_all add: min_def split: if_splits)
  have "xs ! (i - nat k) = take n xs ! (i - nat k)" using i by simp
  also have "\<dots> = ys ! (i - nat k)" using i assms(2) by simp
  finally show "take n (shift_col k xs) ! i = take n (shift_col k ys) ! i"
    using i assms(1) by (simp add: nth_shift_col)
qed

lemma take_col_op: "take n (col_op f xs ys) = col_op f (take n xs) (take n ys)"
  by (simp add: col_op_def take_map take_zip)

lemma rows_upto_df_op:
  "rows_upto T (df_op f a b) =
     map (\<lambda>(xs, ys). col_op f xs ys) (zip (rows_upto T a) (rows_upto T b))"
  by (simp add: rows_upto_def zip_map_map take_col_op split_def)

lemma rows_upto_df_shift:
  assumes "0 \<le> k" and "rows_upto T a = rows_upto T b"
  shows "rows_upto T (df_shift k a) = rows_upto T (df_shift k b)"
proof -
  from assms(2) have len: "length (data a) = length (data b)"
    unfolding rows_upto_def by (rule map_eq_imp_length_eq)
  have "map (take (Suc T)) (map (shift_col k) (data a)) =
        map (take (Suc T)) (map (shift_col k) (data b))"
  proof (rule nth_equalityI)
    show "length (map (take (Suc T)) (map (shift_col k) (data a))) =
          length (map (take (Suc T)) (map (shift_col k) (data b)))"
      using len by simp
    fix i assume "i < length (map (take (Suc T)) (map (shift_col k) (data a)))"
    then have i: "i < length (data a)" "i < length (data b)" using len by simp_all
    have "map (take (Suc T)) (data a) ! i = map (take (Suc T)) (data b) ! i"
      using assms(2) by (simp add: rows_upto_def)
    then have "take (Suc T) (data a ! i) = take (Suc T) (data b ! i)"
      using i by simp
    then have "take (Suc T) (shift_col k (data a ! i)) = take (Suc T) (shift_col k (data b ! i))"
      using assms(1) by (rule take_shift_col[rotated])
    then show "map (take (Suc T)) (map (shift_col k) (data a)) ! i =
               map (take (Suc T)) (map (shift_col k) (data b)) ! i"
      using i by simp
  qed
  then show ?thesis by (simp add: rows_upto_def)
qed

lemma rows_upto_df_abs: "rows_upto T (df_abs a) = map (map cell_abs) (rows_upto T a)"
  by (simp add: rows_upto_def take_map)

lemma rows_upto_df_multiply:
  "rows_upto T (df_multiply k a) = map (map (cell_scale k)) (rows_upto T a)"
  by (simp add: rows_upto_def take_map)

text \<open>
  C8: for every shift \<open>\<ge> 1\<close> and every row \<open>T\<close>, two signal tables that agree on all rows
  up to \<open>T\<close> give the same strategy returns on all rows up to \<open>T\<close>, without and with
  transaction costs: the signal after row \<open>T\<close> is never read for a row at or before \<open>T\<close>.
\<close>

theorem signal_returns_no_look_ahead:
  assumes "1 \<le> shift" and "rows_upto T signal1 = rows_upto T signal2"
  shows "rows_upto T (calculate_signal_returns signal1 returns shift) =
           rows_upto T (calculate_signal_returns signal2 returns shift) \<and>
         rows_upto T (calculate_signal_returns_with_tc signal1 returns tc shift) =
           rows_upto T (calculate_signal_returns_with_tc signal2 returns tc shift)"
proof -
  have s: "rows_upto T (df_shift shift signal1) = rows_upto T (df_shift shift signal2)"
    using assms by (intro rows_upto_df_shift) simp_all
  show ?thesis
    using s assms(2)
    by (simp add: calculate_signal_returns_def calculate_signal_returns_with_tc_def
        calculate_signal_tc_def df_mul_def df_sub_def rows_upto_df_op rows_upto_df_abs
        rows_upto_df_multiply)
qed

theorem signal_returns_no_look_ahead_witness:
  "rows_upto 1 entry_signal = rows_upto 1 entry_signal_late \<and>
   entry_signal \<noteq> entry_signal_late \<and>
   rows_upto 1 (calculate_signal_returns entry_signal some_returns 1) =
     rows_upto 1 (calculate_signal_returns entry_signal_late some_returns 1) \<and>
   rows_upto 1 (calculate_signal_returns_with_tc entry_signal some_returns (1 / 2) 1) =
     rows_upto 1 (calculate_signal_returns_with_tc entry_signal_late some_returns (1 / 2) 1)"
proof -
  have agree: "rows_upto 1 entry_signal = rows_upto 1 entry_signal_late"
    by (simp add: rows_upto_def entry_signal_def entry_signal_late_def)
  have differ: "entry_signal \<noteq> entry_signal_late"
    by (simp add: entry_signal_def entry_signal_late_def)
  have one: "(1::int) \<le> 1" by simp
  show ?thesis
    using signal_returns_no_look_ahead[OF one agree, of some_returns "1 / 2"] agree differ
    by simp
qed

section \<open>Segment ids\<close>

lemma sum_defined_simps [simp]:
  "sum_defined [] = 0"
  "sum_defined (None # xs) = sum_defined xs"
  "sum_defined (Some x # xs) = x + sum_defined xs"
  "sum_defined (xs @ ys) = sum_defined xs + sum_defined ys"
  by (simp_all add: sum_defined_def)

lemma nth_cumsum_from:
  "i < length xs \<Longrightarrow>
     cumsum_from a xs ! i = map_option (\<lambda>_. a + sum_defined (take (Suc i) xs)) (xs ! i)"
proof (induction a xs arbitrary: i rule: cumsum_from.induct)
  case (1 a)
  then show ?case by simp
next
  case (2 a xs)
  show ?case
  proof (cases i)
    case 0
    then show ?thesis by simp
  next
    case (Suc k)
    then have "k < length xs" using "2.prems" by simp
    then show ?thesis using "2.IH"[of k] Suc by simp
  qed
next
  case (3 a x xs)
  show ?case
  proof (cases i)
    case 0
    then show ?thesis by simp
  next
    case (Suc k)
    then have "k < length xs" using "3.prems" by simp
    then show ?thesis using "3.IH"[of k] Suc by (simp add: add.assoc)
  qed
qed

lemma length_cumsum_from [simp]: "length (cumsum_from a xs) = length xs"
  by (induction a xs rule: cumsum_from.induct) simp_all

lemma sum_defined_take_mono:
  assumes "\<forall>c \<in> set xs. \<forall>x. c = Some x \<longrightarrow> 0 \<le> x" and "m \<le> n"
  shows "sum_defined (take m xs) \<le> sum_defined (take n xs)"
proof -
  have nonneg: "0 \<le> sum_defined ys" if "set ys \<subseteq> set xs" for ys
    unfolding sum_defined_def
    using that assms(1) by (intro sum_list_nonneg) (auto split: option.splits)
  have "take n xs = take m xs @ take (n - m) (drop m xs)"
    using assms(2) by (metis le_add_diff_inverse take_add)
  then have "sum_defined (take n xs) = sum_defined (take m xs) + sum_defined (take (n - m) (drop m xs))"
    by (metis sum_defined_simps(4))
  moreover have "0 \<le> sum_defined (take (n - m) (drop m xs))"
    by (rule nonneg) (meson set_drop_subset set_take_subset subset_trans)
  ultimately show ?thesis by simp
qed

lemma sum_defined_take_Suc:
  "i < length xs \<Longrightarrow>
     sum_defined (take (Suc i) xs) =
       sum_defined (take i xs) + (case xs ! i of None \<Rightarrow> 0 | Some x \<Rightarrow> x)"
  by (simp add: take_Suc_conv_app_nth sum_defined_def split: option.splits)

lemma data_trade_points:
  "data (trade_points signal) =
     map (\<lambda>col. col_op (\<lambda>x y. cell_abs (cell_sub x y)) (shift_col 1 col) (shift_col 1 (shift_col 1 col)))
       (data signal)"
  by (simp add: trade_points_def Let_def df_sub_def col_op_def zip_map_map split_def
      zip_same_conv_map)

lemma data_reset_points:
  "data (reset_points signal) = map cumsum_col (data (trade_points signal))"
  by (simp add: reset_points_def df_cumsum_def)

lemma nth_trade_points_col:
  assumes "t < length col"
  shows "col_op (\<lambda>x y. cell_abs (cell_sub x y)) (shift_col 1 col) (shift_col 1 (shift_col 1 col)) ! t =
     (if t < 2 then None else cell_abs (cell_sub (col ! (t - 1)) (col ! (t - 2))))"
proof -
  have s1: "shift_col 1 col ! t = (if t < 1 then None else col ! (t - 1))"
    using assms by (simp add: nth_shift_col)
  have s2: "shift_col 1 (shift_col 1 col) ! t = (if t < 2 then None else col ! (t - 2))"
  proof (cases "t < 1")
    case True
    then show ?thesis using assms by (simp add: nth_shift_col)
  next
    case False
    then have "shift_col 1 (shift_col 1 col) ! t = shift_col 1 col ! (t - 1)"
      using assms by (simp add: nth_shift_col)
    also have "\<dots> = (if t - 1 < 1 then None else col ! (t - 1 - 1))"
      using assms by (simp add: nth_shift_col)
    also have "\<dots> = (if t < 2 then None else col ! (t - 2))"
      using False by (auto simp: numeral_2_eq_2)
    finally show ?thesis .
  qed
  have "col_op (\<lambda>x y. cell_abs (cell_sub x y)) (shift_col 1 col) (shift_col 1 (shift_col 1 col)) ! t =
        cell_abs (cell_sub (shift_col 1 col ! t) (shift_col 1 (shift_col 1 col) ! t))"
    using assms by (simp add: nth_col_op)
  then show ?thesis
    unfolding s1 s2 by (auto simp: cell_sub_def cell_abs_def)
qed

lemma trade_points_col_nonneg:
  assumes "c \<in> set (col_op (\<lambda>x y. cell_abs (cell_sub x y)) xs ys)" and "c = Some x"
  shows "0 \<le> x"
  using assms by (auto simp: col_op_def cell_abs_def map_option_case split: option.splits)

lemma segment_ids_col:
  fixes col :: "cell list"
  defines "tp \<equiv> col_op (\<lambda>x y. cell_abs (cell_sub x y)) (shift_col 1 col) (shift_col 1 (shift_col 1 col))"
  assumes "i \<le> t" and "t < length col"
    and "cumsum_col tp ! i = Some a" and "cumsum_col tp ! t = Some b"
  shows "a \<le> b \<and>
         (Suc i = t \<longrightarrow> cell_abs (cell_sub (col ! (t - 1)) (col ! (t - 2))) = Some (b - a))"
proof -
  have len: "length tp = length col" by (simp add: tp_def)
  have nn: "\<forall>c \<in> set tp. \<forall>x. c = Some x \<longrightarrow> 0 \<le> x"
    unfolding tp_def using trade_points_col_nonneg by blast
  have a: "a = sum_defined (take (Suc i) tp)" and ai: "tp ! i \<noteq> None"
    using assms(2,3,4) len by (auto simp: cumsum_col_def nth_cumsum_from split: option.splits)
  have b: "b = sum_defined (take (Suc t) tp)" and bt: "tp ! t \<noteq> None"
    using assms(3,5) len by (auto simp: cumsum_col_def nth_cumsum_from split: option.splits)
  have mono: "a \<le> b"
    unfolding a b using nn assms(2) by (intro sum_defined_take_mono) simp_all
  have step: "cell_abs (cell_sub (col ! (t - 1)) (col ! (t - 2))) = Some (b - a)" if "Suc i = t"
  proof -
    have "b = a + (case tp ! t of None \<Rightarrow> 0 | Some x \<Rightarrow> x)"
      unfolding a b using that assms(3) len by (simp add: sum_defined_take_Suc)
    then have "tp ! t = Some (b - a)" using bt by (auto split: option.splits)
    moreover have "2 \<le> t"
    proof (rule ccontr)
      assume "\<not> 2 \<le> t"
      then have "tp ! t = None" using assms(3) by (simp add: tp_def nth_trade_points_col)
      then show False using bt by simp
    qed
    ultimately show ?thesis using assms(3) by (simp add: tp_def nth_trade_points_col)
  qed
  show ?thesis using mono step by simp
qed

lemma wf_flip_signal: "wf_df flip_signal"
  by (simp add: wf_df_def flip_signal_def)

lemma flip_signal_trade_points:
  "data (trade_points flip_signal) = [[None, None, Some 0, Some 2]]"
  by (simp add: data_trade_points flip_signal_def shift_col_def col_op_def cell_sub_def
      cell_abs_def)

lemma flip_signal_reset_points:
  "data (reset_points flip_signal) = [[None, None, Some 0, Some 2]]"
  by (simp add: data_reset_points flip_signal_trade_points cumsum_col_def)

text \<open>
  C4, as stated, fails. On a signal that turns from 1 to -1, row 3 is a reset point
  (\<open>|signal[2] - signal[1]| = 2\<close> is not zero), and the segment id goes from 0 at row 2
  to 2 at row 3: it does not increase by exactly 1.
\<close>

theorem segment_ids_unit_step_refuted:
  "cell_gt (cell_at (trade_points flip_signal) 0 3) 0 \<and>
   cell_at (reset_points flip_signal) 0 3 \<noteq>
     cell_op (+) (cell_at (reset_points flip_signal) 0 2) (Some 1)"
  by (simp add: cell_at_def flip_signal_trade_points flip_signal_reset_points)

text \<open>
  C4, amended: in every column the segment ids (the running sum of
  \<open>|signal[t-1] - signal[t-2]|\<close>) are non-decreasing along the rows where they are
  defined, and from one row to the next the id grows by \<open>|signal[t-1] - signal[t-2]|\<close>:
  by nothing at a row that is no reset point, and by the size of the signal's change at a
  reset point (by exactly 1 only when the signal changed by 1).
\<close>

theorem segment_ids_steps:
  assumes "wf_df signal" and "j < length (columns signal)"
    and "i \<le> t" and "t < length (index signal)"
    and "cell_at (reset_points signal) j i = Some a"
    and "cell_at (reset_points signal) j t = Some b"
  shows "a \<le> b \<and>
         (Suc i = t \<longrightarrow>
            cell_abs (cell_sub (cell_at signal j (t - 1)) (cell_at signal j (t - 2))) = Some (b - a))"
proof -
  have j: "j < length (data signal)"
    using assms(1,2) by (simp add: wf_df_def)
  have len: "t < length (data signal ! j)"
    using wf_df_col_length[OF assms(1,2)] assms(4) by simp
  have ids: "data (reset_points signal) ! j =
      cumsum_col (col_op (\<lambda>x y. cell_abs (cell_sub x y)) (shift_col 1 (data signal ! j))
        (shift_col 1 (shift_col 1 (data signal ! j))))"
    using j by (simp add: data_reset_points data_trade_points)
  show ?thesis
    using segment_ids_col[OF assms(3) len, of a b] assms(5,6)
    unfolding cell_at_def ids by simp
qed

theorem segment_ids_steps_witness:
  "wf_df flip_signal \<and>
   cell_at (reset_points flip_signal) 0 2 = Some 0 \<and>
   cell_at (reset_points flip_signal) 0 3 = Some 2 \<and>
   cell_abs (cell_sub (cell_at flip_signal 0 2) (cell_at flip_signal 0 1)) = Some 2"
proof -
  have a: "cell_at (reset_points flip_signal) 0 2 = Some 0"
    and b: "cell_at (reset_points flip_signal) 0 3 = Some 2"
    by (simp_all add: cell_at_def flip_signal_reset_points)
  have "(0::real) \<le> 2 \<and>
        (Suc 2 = 3 \<longrightarrow>
           cell_abs (cell_sub (cell_at flip_signal 0 (3 - 1)) (cell_at flip_signal 0 (3 - 2))) =
             Some (2 - 0))"
    by (rule segment_ids_steps[OF wf_flip_signal _ _ _ a b]) (simp_all add: flip_signal_def)
  then show ?thesis
    using wf_flip_signal a b by simp
qed

section \<open>Cumulative returns of each trade\<close>

lemma df_getitem_missing: "c \<notin> set (columns df) \<Longrightarrow> df_getitem df c = Inl KeyError"
proof -
  assume "c \<notin> set (columns df)"
  then have "c \<notin> fst ` set (zip (columns df) (data df))"
    by (auto dest: set_zip_leftD)
  then have "map_of (zip (columns df) (data df)) c = None"
    by (simp add: map_of_eq_None_iff)
  then show ?thesis by (simp add: df_getitem_def)
qed

lemma df_getattr_missing:
  "Name name \<notin> set (columns df) \<Longrightarrow> df_getattr df name = Inl AttributeError"
  by (simp add: df_getattr_def df_getitem_missing)

text \<open>
  C5: the code does not return the table the claim describes. For every returns table
  with no column labelled \<^verbatim>\<open>columnsii\<close>, \<^verbatim>\<open>calculate_cum_rets_trades\<close> raises
  AttributeError at \<^verbatim>\<open>old_cols = strategy_returns_data_frame.columnsii\<close>, before any sum
  is computed; the caller's returns table is as it was passed in.
\<close>

theorem cum_rets_trades_raises:
  assumes "Name ''columnsii'' \<notin> set (columns strategy_returns_data_frame)"
  shows "calculate_cum_rets_trades signal_data_frame strategy_returns_data_frame =
           (Inl AttributeError, strategy_returns_data_frame)"
  using assms by (simp add: calculate_cum_rets_trades_def df_getattr_missing)

theorem cum_rets_trades_raises_witness:
  "Name ''columnsii'' \<notin> set (columns scenario_returns) \<and>
   calculate_cum_rets_trades scenario_signal scenario_returns =
     (Inl AttributeError, scenario_returns)"
proof -
  have c: "Name ''columnsii'' \<notin> set (columns scenario_returns)"
    by (simp add: scenario_returns_def)
  show ?thesis
    using cum_rets_trades_raises[OF c, of scenario_signal] c by simp
qed

section \<open>Trade durations\<close>

lemma scenario_reset_points:
  "reset_points scenario_signal =
     \<lparr>index = [0, 1, 2, 3, 4, 5], columns = [Name ''x''],
      data = [[None, None, Some 1, Some 1, Some 1, Some 2]]\<rparr>"
  by (simp add: reset_points_def trade_points_def df_cumsum_def df_abs_def df_sub_def df_op_def
      df_shift_def scenario_signal_def shift_col_def col_op_def cell_sub_def cell_abs_def
      cumsum_col_def)

lemma scenario_final_trade_duration:
  "calculate_final_trade_duration scenario_signal =
     Inr \<lparr>index = [0, 1, 2, 3, 4, 5], columns = [Name ''x''],
          data = [[None, None, Some 1, Some 2, Some 3, Some 1]]\<rparr>"
  unfolding calculate_final_trade_duration_def scenario_reset_points
  by (simp add: scenario_signal_def df_shift_def df_set_columns_def group_step_def
      df_getitem_def df_setitem_def df_drop_def)








lemma columns_reset_points [simp]: "columns (reset_points signal) = columns signal"
  by (simp add: reset_points_def trade_points_def df_cumsum_def df_abs_def df_sub_def
      df_op_def df_shift_def Let_def)

lemma index_reset_points [simp]: "index (reset_points signal) = index signal"
  by (simp add: reset_points_def trade_points_def df_cumsum_def df_abs_def df_sub_def
      df_op_def df_shift_def Let_def)

lemma length_data_reset_points [simp]:
  "length (data (reset_points signal)) = length (data signal)"
  by (simp add: data_reset_points data_trade_points)

lemma length_reset_points_col:
  "j < length (data signal) \<Longrightarrow>
     length (data (reset_points signal) ! j) = length (data signal ! j)"
  by (simp add: data_reset_points data_trade_points cumsum_col_def)




lemma length_signal_deltas [simp]: "length (signal_deltas col) = length col"
  by (simp add: signal_deltas_def)






section \<open>The static risk-stop overlay\<close>

lemma length_mask2 [simp]: "length (mask2 f a b) = min (length a) (length b)"
  by (simp add: mask2_def)

lemma nth_mask2:
  "j < length a \<Longrightarrow> j < length b \<Longrightarrow>
     mask2 f a b ! j = map (\<lambda>(x, y). f x y) (zip (a ! j) (b ! j))"
  by (simp add: mask2_def)


lemma zip_shift_col_1: "zip xs (shift_col 1 xs) = zip xs (None # xs)"
proof -
  have "zip xs (take (length xs) ys) = zip xs ys" for ys :: "cell list"
  proof (induction xs arbitrary: ys)
    case Nil
    then show ?case by simp
  next
    case (Cons a xs)
    then show ?case by (cases ys) simp_all
  qed
  then show ?thesis by (simp add: shift_col_def)
qed

lemma ffill_hold:
  "(p \<noteq> None \<longrightarrow> f = p) \<Longrightarrow>
     ffill_from f (map (\<lambda>(x, q). if cell_eq (cell_abs (cell_sub x q)) 0 then None else x)
                    (zip xs (p # xs))) = ffill_from f xs"
proof (induction xs arbitrary: p f)
  case Nil
  then show ?case by simp
next
  case (Cons x xs)
  show ?case
  proof (cases x)
    case None
    then show ?thesis
      using Cons.IH[of None f] by (simp add: cell_sub_def cell_abs_def)
  next
    case (Some v)
    show ?thesis
    proof (cases "p = Some v")
      case True
      then have "f = Some v" using Cons.prems by simp
      then show ?thesis
        using Cons.IH[of "Some v" "Some v"] True Some by (simp add: cell_sub_def cell_abs_def)
    next
      case False
      then have "\<not> cell_eq (cell_abs (cell_sub (Some v) p)) 0"
        by (cases p) (simp_all add: cell_sub_def cell_abs_def)
      then show ?thesis
        using Cons.IH[of "Some v" "Some v"] Some by simp
    qed
  qed
qed

lemma ffill_from_no_missing: "None \<notin> set xs \<Longrightarrow> ffill_from f xs = xs"
  by (induction f xs rule: ffill_from.induct) simp_all

lemma ffill_col_no_missing: "None \<notin> set xs \<Longrightarrow> ffill_col xs = xs"
  by (simp add: ffill_col_def ffill_from_no_missing)

lemma mask2_all_false:
  assumes "length msk = length a"
    and "\<forall>j < length a. length (msk ! j) = length (a ! j)"
    and "list_all (list_all (\<lambda>b. \<not> b)) msk"
  shows "mask2 (\<lambda>c m. if m then v else c) a msk = a"
proof (rule nth_equalityI)
  show "length (mask2 (\<lambda>c m. if m then v else c) a msk) = length a"
    using assms(1) by simp
  fix j assume "j < length (mask2 (\<lambda>c m. if m then v else c) a msk)"
  then have j: "j < length a" "j < length msk" using assms(1) by simp_all
  have lj: "length (msk ! j) = length (a ! j)" using assms(2) j by simp
  have fj: "\<forall>t < length (msk ! j). \<not> msk ! j ! t"
    using assms(3) j by (simp add: list_all_length)
  have "map (\<lambda>(x, y). if y then v else x) (zip (a ! j) (msk ! j)) = a ! j"
    using lj fj by (intro nth_equalityI) simp_all
  then show "mask2 (\<lambda>c m. if m then v else c) a msk ! j = a ! j"
    using j by (simp add: nth_mask2)
qed

lemma data_risk_reset:
  "data (df_abs (df_sub signal (df_shift 1 signal))) =
     map (\<lambda>col. col_op (\<lambda>x y. cell_abs (cell_sub x y)) col (shift_col 1 col)) (data signal)"
  by (rule nth_equalityI) (simp_all add: df_sub_def col_op_def split_def)

lemma hold_mask_col:
  "map (\<lambda>(c, m). if m then None else c)
     (zip col (map (\<lambda>c. cell_eq c 0) (col_op (\<lambda>x y. cell_abs (cell_sub x y)) col (shift_col 1 col)))) =
   map (\<lambda>(x, q). if cell_eq (cell_abs (cell_sub x q)) 0 then None else x) (zip col (None # col))"
proof -
  have "zip col (map (\<lambda>c. cell_eq c 0) (col_op (\<lambda>x y. cell_abs (cell_sub x y)) col (shift_col 1 col))) =
        map (\<lambda>(x, q). (x, cell_eq (cell_abs (cell_sub x q)) 0)) (zip col (None # col))"
    unfolding col_op_def zip_shift_col_1
    by (rule nth_equalityI) (simp_all add: split_def)
  then show ?thesis by (simp add: split_def)
qed

lemma ffill_hold_mask_col:
  "ffill_col (map (\<lambda>(c, m). if m then None else c)
     (zip col (map (\<lambda>c. cell_eq c 0) (col_op (\<lambda>x y. cell_abs (cell_sub x y)) col (shift_col 1 col))))) =
   ffill_col col"
  unfolding hold_mask_col ffill_col_def by (rule ffill_hold) simp

lemma wf_df_has_shape:
  "wf_df df \<Longrightarrow> has_shape (length (columns df)) (length (index df)) (data df)"
  by (simp add: wf_df_def has_shape_def)


lemma has_shape_length: "has_shape n m a \<Longrightarrow> length a = n"
  by (simp add: has_shape_def)

lemma has_shape_map: "has_shape n m a \<Longrightarrow> has_shape n m (map (map f) a)"
  by (simp add: has_shape_def list_all_length)

lemma has_shape_mask2:
  "has_shape n m a \<Longrightarrow> has_shape n m b \<Longrightarrow> has_shape n m (mask2 f a b)"
  by (simp add: has_shape_def list_all_length nth_mask2)

lemma stop_ind_shape:
  assumes "wf_df cum" and "wf_level stop_loss" and "wf_level take_profit"
    and "stop_ind cum stop_loss take_profit = Inr ind"
  shows "has_shape (length (columns cum)) (length (index cum)) ind"
proof -
  let ?n = "length (columns cum)" and ?m = "length (index cum)"
  have c: "has_shape ?n ?m (data cum)" using assms(1) by (rule wf_df_has_shape)
  have gt: "has_shape ?n ?m g" if "df_gt cum take_profit = Inr g" for g
  proof (cases take_profit)
    case (Scalar k)
    then show ?thesis using that c by (auto simp: df_gt_def has_shape_map)
  next
    case (Frame f)
    then have "has_shape ?n ?m (data f)" and "g = mask2 cell_gt2 (data cum) (data f)"
      using that assms(3) wf_df_has_shape[of f]
      by (auto simp: df_gt_def wf_level_def split: if_splits)
    then show ?thesis using c by (simp add: has_shape_mask2)
  qed
  have lt: "has_shape ?n ?m l" if "df_lt cum stop_loss = Inr l" for l
  proof (cases stop_loss)
    case (Scalar k)
    then show ?thesis using that c by (auto simp: df_lt_def has_shape_map)
  next
    case (Frame f)
    then have "has_shape ?n ?m (data f)" and "l = mask2 cell_lt2 (data cum) (data f)"
      using that assms(2) wf_df_has_shape[of f]
      by (auto simp: df_lt_def wf_level_def split: if_splits)
    then show ?thesis using c by (simp add: has_shape_mask2)
  qed
  from assms(4) obtain g l where "df_gt cum take_profit = Inr g" "df_lt cum stop_loss = Inr l"
    and "ind = mask2 (\<or>) g l"
    by (auto simp: stop_ind_def split: sum.splits)
  then show ?thesis using gt lt by (simp add: has_shape_mask2)
qed

lemma has_shape_risk_reset:
  assumes "has_shape n m (data signal)"
  shows "has_shape n m (data (df_abs (df_sub signal (df_shift 1 signal))))"
  using assms unfolding data_risk_reset by (simp add: has_shape_def list_all_length)

lemma mask2_all_false_shape:
  assumes "has_shape n m a" and "has_shape n m msk" and "list_all (list_all (\<lambda>b. \<not> b)) msk"
  shows "mask2 (\<lambda>c m. if m then v else c) a msk = a"
  using assms by (intro mask2_all_false) (simp_all add: has_shape_def list_all_length)

lemma df_ffill_hold:
  "df_ffill (df_mask_set signal
       (map (map (\<lambda>c. cell_eq c 0)) (data (df_abs (df_sub signal (df_shift 1 signal))))) None) =
   df_ffill signal"
proof -
  have "map ffill_col (mask2 (\<lambda>c m. if m then None else c) (data signal)
          (map (map (\<lambda>c. cell_eq c 0)) (data (df_abs (df_sub signal (df_shift 1 signal)))))) =
        map ffill_col (data signal)"
    unfolding data_risk_reset
    by (rule nth_equalityI) (simp_all add: nth_mask2 ffill_hold_mask_col)
  then show ?thesis by (simp add: df_ffill_def df_mask_set_def)
qed

lemma df_ffill_no_missing:
  assumes "list_all (list_all (\<lambda>c. c \<noteq> None)) (data signal)"
  shows "df_ffill signal = signal"
proof -
  have "map ffill_col (data signal) = data signal"
  proof (rule map_idI)
    fix col assume "col \<in> set (data signal)"
    then have "None \<notin> set col" using assms by (auto simp: list_all_iff)
    then show "ffill_col col = col" by (rule ffill_col_no_missing)
  qed
  then show ?thesis by (simp add: df_ffill_def)
qed

text \<open>
  C7, amended: when the signal table and the cumulative-trade-returns table have the same
  index and number of columns and no stop-loss or take-profit condition is true at any
  cell, the table returned by \<^verbatim>\<open>calculate_risk_stop_signals\<close> is the input signal with
  every missing cell replaced by the last value above it in its column (its forward fill);
  it equals the input signal, row for row and column for column, when the signal has no
  missing cell.
\<close>

theorem risk_stop_no_trigger:
  assumes "wf_df signal" and "wf_df cum" and "wf_level stop_loss" and "wf_level take_profit"
    and "index cum = index signal" and "length (columns cum) = length (columns signal)"
    and "stop_ind cum stop_loss take_profit = Inr ind"
    and "list_all (list_all (\<lambda>b. \<not> b)) ind"
  shows "map_sum id fst (calculate_risk_stop_signals signal cum stop_loss take_profit) =
           Inr (df_ffill signal) \<and>
         (list_all (list_all (\<lambda>c. c \<noteq> None)) (data signal) \<longrightarrow>
            map_sum id fst (calculate_risk_stop_signals signal cum stop_loss take_profit) =
              Inr signal)"
proof -
  let ?n = "length (columns signal)" and ?m = "length (index signal)"
  let ?rp = "df_abs (df_sub signal (df_shift 1 signal))"
  have si: "has_shape ?n ?m ind"
    using stop_ind_shape[OF assms(2,3,4,7)] assms(5,6) by simp
  have ss: "has_shape ?n ?m (data signal)" using assms(1) by (rule wf_df_has_shape)
  have s1: "df_mask_set signal ind (Some 0) = signal"
    using mask2_all_false_shape[OF ss si assms(8)] by (simp add: df_mask_set_def)
  have r1: "df_mask_set ?rp ind (Some 1) = ?rp"
    using mask2_all_false_shape[OF has_shape_risk_reset[OF ss] si assms(8)]
    by (simp add: df_mask_set_def)
  let ?held = "df_mask_set signal (map (map (\<lambda>c. cell_eq c 0)) (data ?rp)) None"
  have "calculate_risk_stop_signals signal cum stop_loss take_profit =
          Inr (df_ffill ?held, ?held)"
    using assms(7) has_shape_length[OF si]
    by (simp add: calculate_risk_stop_signals_def Let_def s1 r1 del: data_df_abs)
  then have "map_sum id fst (calculate_risk_stop_signals signal cum stop_loss take_profit) =
          Inr (df_ffill ?held)"
    by simp
  then have "map_sum id fst (calculate_risk_stop_signals signal cum stop_loss take_profit) =
          Inr (df_ffill signal)"
    by (simp only: df_ffill_hold)
  then show ?thesis by (simp add: df_ffill_no_missing)
qed

lemma scenario_stop_ind:
  "stop_ind scenario_returns (Scalar (- 1)) (Scalar 1) =
     Inr [[False, False, False, False, False, False]]"
  by (simp add: stop_ind_def df_gt_def df_lt_def mask2_def scenario_returns_def)

theorem risk_stop_no_trigger_witness:
  "wf_df scenario_signal \<and> wf_df scenario_returns \<and>
   stop_ind scenario_returns (Scalar (- 1)) (Scalar 1) =
     Inr [[False, False, False, False, False, False]] \<and>
   map_sum id fst
     (calculate_risk_stop_signals scenario_signal scenario_returns (Scalar (- 1)) (Scalar 1)) =
     Inr scenario_signal"
proof -
  have full: "list_all (list_all (\<lambda>c. c \<noteq> None)) (data scenario_signal)"
    by (simp add: scenario_signal_def)
  have lv: "wf_level (Scalar (- 1))" "wf_level (Scalar 1)"
    by (simp_all add: wf_level_def)
  have ix: "index scenario_returns = index scenario_signal"
    and nc: "length (columns scenario_returns) = length (columns scenario_signal)"
    by (simp_all add: scenario_signal_def scenario_returns_def)
  have nt: "list_all (list_all (\<lambda>b. \<not> b)) [[False, False, False, False, False, False]]"
    by simp
  have "map_sum id fst
     (calculate_risk_stop_signals scenario_signal scenario_returns (Scalar (- 1)) (Scalar 1)) =
     Inr scenario_signal"
    using risk_stop_no_trigger[OF wf_scenario_signal wf_scenario_returns lv ix nc
        scenario_stop_ind nt] full
    by blast
  then show ?thesis
    using wf_scenario_signal wf_scenario_returns scenario_stop_ind by simp
qed

lemma gap_signal_overlay:
  "calculate_risk_stop_signals gap_signal zero_returns (Scalar (- 1)) (Scalar 1) =
     Inr (\<lparr>index = [0, 1], columns = [Name ''x''], data = [[Some 1, Some 1]]\<rparr>, gap_signal)"
  by (simp add: calculate_risk_stop_signals_def stop_ind_def df_gt_def df_lt_def mask2_def
      gap_signal_def zero_returns_def df_mask_set_def df_sub_def df_ffill_def ffill_col_def
      shift_col_def col_op_def cell_sub_def cell_abs_def)

text \<open>
  C7, as stated, fails on a signal with a missing cell after a value: for signal
  \<open>[1, NaN]\<close> and cumulative returns \<open>[0, 0]\<close> between the levels -1 and 1 no
  condition is true, and the overlay returns \<open>[1, 1]\<close>.
\<close>

theorem risk_stop_output_equals_input_refuted:
  "stop_ind zero_returns (Scalar (- 1)) (Scalar 1) = Inr [[False, False]] \<and>
   map_sum id fst (calculate_risk_stop_signals gap_signal zero_returns (Scalar (- 1)) (Scalar 1)) \<noteq>
     Inr gap_signal"
  by (simp add: gap_signal_overlay)
    (simp add: stop_ind_def df_gt_def df_lt_def mask2_def zero_returns_def gap_signal_def)






section \<open>The multiplicative index\<close>

lemma growth_simps [simp]:
  "growth [] = 1"
  "growth (None # xs) = growth xs"
  "growth (Some r # xs) = (1 + r) * growth xs"
  "growth (xs @ ys) = growth xs * growth ys"
  by (simp_all add: growth_def)

lemma length_cumprod_from [simp]: "length (cumprod_from a xs) = length xs"
  by (induction a xs rule: cumprod_from.induct) simp_all

lemma nth_cumprod_from:
  "i < length xs \<Longrightarrow>
     cumprod_from a (map (map_option (\<lambda>r. 1 + r)) xs) ! i =
       map_option (\<lambda>_. a * growth (take (Suc i) xs)) (xs ! i)"
proof (induction xs arbitrary: a i)
  case Nil
  then show ?case by simp
next
  case (Cons x xs)
  show ?case
  proof (cases i)
    case 0
    then show ?thesis by (cases x) simp_all
  next
    case (Suc k)
    then have "k < length xs" using Cons.prems by simp
    then show ?thesis using Cons.IH[of k] Suc by (cases x) (simp_all add: mult.assoc)
  qed
qed

lemma first_valid_Some:
  "first_valid xs = Some i \<Longrightarrow> i < length xs \<and> xs ! i \<noteq> None \<and> (\<forall>k < i. xs ! k = None)"
proof (induction xs arbitrary: i rule: first_valid.induct)
  case 1
  then show ?case by simp
next
  case (2 x xs)
  then show ?case by simp
next
  case (3 xs)
  then obtain k where k: "first_valid xs = Some k" "i = Suc k" by auto
  then show ?case using "3.IH"[OF k(1)] by (auto simp: less_Suc_eq_0_disj)
qed

lemma first_valid_cong:
  "map (\<lambda>c. c = None) xs = map (\<lambda>c. c = None) ys \<Longrightarrow> first_valid xs = first_valid ys"
proof (induction xs arbitrary: ys rule: first_valid.induct)
  case 1
  then show ?case by simp
next
  case (2 x xs)
  then obtain y ys' where "ys = Some y # ys'" by (cases ys) auto
  then show ?case by simp
next
  case (3 xs)
  then obtain ys' where ys: "ys = None # ys'" by (cases ys) auto
  then have "first_valid xs = first_valid ys'" using 3 by simp
  then show ?case using ys by simp
qed

lemma loc_set_distinct:
  assumes "distinct idx" and "length col = length idx" and "i < length idx"
  shows "loc_set idx (idx ! i) v col = col[i := v]"
proof (rule nth_equalityI)
  show "length (loc_set idx (idx ! i) v col) = length (col[i := v])"
    using assms(2) by (simp add: loc_set_def)
  fix k assume "k < length (loc_set idx (idx ! i) v col)"
  then have k: "k < length idx" "k < length col" using assms(2) by (simp_all add: loc_set_def)
  have "idx ! k = idx ! i \<longleftrightarrow> k = i"
    using assms(1,3) k by (simp add: nth_eq_iff_index_eq)
  then show "loc_set idx (idx ! i) v col ! k = col[i := v] ! k"
    using k by (auto simp: loc_set_def)
qed

lemma sorted_wrt_less_distinct: "sorted_wrt (<) (idx :: int list) \<Longrightarrow> distinct idx"
  by (simp add: strict_sorted_iff)

lemma mult_index_col_value:
  assumes "distinct idx" and "length rets = length idx" and "first_valid rets = Some i0"
  shows "mult_index_col idx rets =
     Some ((map (cell_scale 100) (cumprod_col (map (map_option (\<lambda>r. 1 + r)) rets)))
             [i0 := Some 100])"
proof -
  let ?col = "map (cell_scale 100) (cumprod_col (map (map_option (\<lambda>r. 1 + r)) rets))"
  have len: "length ?col = length rets" by (simp add: cumprod_col_def)
  have "map (\<lambda>c. c = None) ?col = map (\<lambda>c. c = None) rets"
    by (rule nth_equalityI)
      (simp_all add: cumprod_col_def nth_cumprod_from cell_scale_def)
  then have fv: "first_valid ?col = Some i0"
    using assms(3) first_valid_cong by metis
  have i0: "i0 < length idx" using first_valid_Some[OF assms(3)] assms(2) by simp
  then have "first_valid_index idx ?col = Some (idx ! i0)"
    using fv by (simp add: first_valid_index_def)
  moreover have "loc_set idx (idx ! i0) (Some 100) ?col = ?col[i0 := Some 100]"
    using assms(1,2) i0 len by (intro loc_set_distinct) simp_all
  ultimately show ?thesis by (simp add: mult_index_col_def Let_def)
qed

lemma mult_index_col_nth:
  assumes "distinct idx" and "length rets = length idx" and "first_valid rets = Some i0"
    and "t < length idx"
  shows "\<exists>col. mult_index_col idx rets = Some col \<and> length col = length idx \<and>
           col ! t = (if i0 = t then Some 100
                      else map_option (\<lambda>_. growth (take (Suc t) rets) * 100) (rets ! t))"
proof -
  let ?col = "map (cell_scale 100) (cumprod_col (map (map_option (\<lambda>r. 1 + r)) rets))"
  have len: "length ?col = length idx" using assms(2) by (simp add: cumprod_col_def)
  have "?col ! t = map_option (\<lambda>_. growth (take (Suc t) rets) * 100) (rets ! t)"
    using assms(2,4) by (simp add: cumprod_col_def nth_cumprod_from cell_scale_def
        option.map_comp comp_def)
  then have "(?col[i0 := Some 100]) ! t =
      (if i0 = t then Some 100
       else map_option (\<lambda>_. growth (take (Suc t) rets) * 100) (rets ! t))"
    using assms(4) len by (simp add: nth_list_update del: nth_map)
  then show ?thesis
    using mult_index_col_value[OF assms(1,2,3)] len by simp
qed

lemma sequence_option_map:
  "(\<And>x. x \<in> set xs \<Longrightarrow> \<exists>y. f x = Some y) \<Longrightarrow>
     \<exists>ys. sequence_option (map f xs) = Some ys \<and> length ys = length xs \<and>
          (\<forall>j < length xs. f (xs ! j) = Some (ys ! j))"
proof (induction xs)
  case Nil
  then show ?case by simp
next
  case (Cons x xs)
  then obtain y where y: "f x = Some y" by auto
  from Cons obtain ys where ys: "sequence_option (map f xs) = Some ys" "length ys = length xs"
    "\<forall>j < length xs. f (xs ! j) = Some (ys ! j)"
    by auto
  have "\<forall>j < length (x # xs). f ((x # xs) ! j) = Some ((y # ys) ! j)"
    using y ys(3) by (auto simp: nth_Cons split: nat.splits)
  then show ?case using y ys by simp
qed

text \<open>
  C6, amended: for every returns table in which every column has a row that is not
  missing, \<^verbatim>\<open>create_mult_index\<close> returns a table with the same index and columns that
  holds exactly 100 at each column's first non-missing row; at every other row it is
  missing where the return is missing, and otherwise 100 times the product of
  \<open>1 + return\<close> over the non-missing rows of the column up to that row. So it is 100 at
  another row exactly when that product is 1, which does not need zero returns.
\<close>

theorem create_mult_index_cells:
  assumes "wf_df df_rets"
    and "list_all (\<lambda>col. first_valid col \<noteq> None) (data df_rets)"
  shows "\<exists>df. create_mult_index df_rets = Some df \<and>
           index df = index df_rets \<and> columns df = columns df_rets \<and>
           (\<forall>j < length (columns df_rets). \<forall>t < length (index df_rets).
              cell_at df j t =
                (if first_valid (data df_rets ! j) = Some t then Some 100
                 else map_option (\<lambda>_. growth (take (Suc t) (data df_rets ! j)) * 100)
                        (cell_at df_rets j t)))"
proof -
  let ?idx = "index df_rets"
  have d: "distinct ?idx" using assms(1) by (simp add: wf_df_def sorted_wrt_less_distinct)
  have n: "length (data df_rets) = length (columns df_rets)"
    using assms(1) by (simp add: wf_df_def)
  have col: "length c = length ?idx \<and> (\<exists>i0. first_valid c = Some i0)"
    if "c \<in> set (data df_rets)" for c
    using that assms by (auto simp: wf_df_def list_all_iff)
  have "\<exists>y. mult_index_col ?idx c = Some y" if "c \<in> set (data df_rets)" for c
    using col[OF that] mult_index_col_value[OF d] by blast
  then obtain ys where ys: "sequence_option (map (mult_index_col ?idx) (data df_rets)) = Some ys"
    "length ys = length (data df_rets)"
    "\<forall>j < length (data df_rets). mult_index_col ?idx (data df_rets ! j) = Some (ys ! j)"
    using sequence_option_map[of "data df_rets" "mult_index_col ?idx"] by blast
  let ?df = "df_rets\<lparr>data := ys\<rparr>"
  have run: "create_mult_index df_rets = Some ?df"
    using ys(1) by (simp add: create_mult_index_def)
  have cells: "cell_at ?df j t =
                (if first_valid (data df_rets ! j) = Some t then Some 100
                 else map_option (\<lambda>_. growth (take (Suc t) (data df_rets ! j)) * 100)
                        (cell_at df_rets j t))"
    if j: "j < length (columns df_rets)" and t: "t < length ?idx" for j t
  proof -
    have jj: "j < length (data df_rets)" using j n by simp
    then have c: "data df_rets ! j \<in> set (data df_rets)" by simp
    obtain i0 where i0: "first_valid (data df_rets ! j) = Some i0"
      using col[OF c] by blast
    have l: "length (data df_rets ! j) = length ?idx" using col[OF c] by simp
    show ?thesis
      using mult_index_col_nth[OF d l i0 t] ys(3) jj i0
      by (auto simp: cell_at_def)
  qed
  show ?thesis using run cells by (intro exI[of _ ?df]) simp
qed

lemma wf_double_half_returns: "wf_df double_half_returns"
  by (simp add: wf_df_def double_half_returns_def)

theorem create_mult_index_cells_witness:
  "wf_df double_half_returns \<and>
   list_all (\<lambda>col. first_valid col \<noteq> None) (data double_half_returns) \<and>
   (\<exists>df. create_mult_index double_half_returns = Some df \<and>
      cell_at df 0 0 = Some 100 \<and> cell_at df 0 1 = Some 100)"
proof -
  have fv: "list_all (\<lambda>col. first_valid col \<noteq> None) (data double_half_returns)"
    by (simp add: double_half_returns_def)
  obtain df where run: "create_mult_index double_half_returns = Some df"
    and cells: "\<forall>j < length (columns double_half_returns).
        \<forall>t < length (index double_half_returns).
          cell_at df j t =
            (if first_valid (data double_half_returns ! j) = Some t then Some 100
             else map_option (\<lambda>_. growth (take (Suc t) (data double_half_returns ! j)) * 100)
                    (cell_at double_half_returns j t))"
    using create_mult_index_cells[OF wf_double_half_returns fv] by blast
  have n: "0 < length (columns double_half_returns)"
    and m: "length (index double_half_returns) = 2"
    by (simp_all add: double_half_returns_def)
  have c0: "cell_at df 0 0 = Some 100"
    using cells[rule_format, of 0 0] n m by (simp add: double_half_returns_def)
  have c1: "cell_at df 0 1 = Some 100"
    using cells[rule_format, of 0 1] n m
    by (simp add: double_half_returns_def cell_at_def)
  show ?thesis using wf_double_half_returns fv run c0 c1 by blast
qed

lemma double_half_index_value:
  "create_mult_index double_half_returns =
     Some \<lparr>index = [0, 1], columns = [Name ''x''], data = [[Some 100, Some 100]]\<rparr>"
  by (simp add: create_mult_index_def mult_index_col_def first_valid_index_def loc_set_def
      cumprod_col_def cell_scale_def double_half_returns_def)

text \<open>
  C6, as stated, fails in its second half: for returns \<open>[1, -1/2]\<close> the index is 100 at
  row 1, which is not the column's first non-missing row (that is row 0), and neither the
  return at row 1 nor the return before it is zero.
\<close>

theorem mult_index_100_only_at_base_refuted:
  "map_option (\<lambda>df. cell_at df 0 1) (create_mult_index double_half_returns) = Some (Some 100) \<and>
   first_valid (data double_half_returns ! 0) = Some 0 \<and>
   cell_at double_half_returns 0 0 = Some 1 \<and>
   cell_at double_half_returns 0 1 = Some (- (1 / 2))"
  unfolding double_half_index_value
  by (simp add: cell_at_def double_half_returns_def)

section \<open>Outer joins of a list of tables\<close>

lemma sort_remdups_assoc:
  "sort (remdups (sort (remdups (a @ b)) @ c)) = sort (remdups (a @ sort (remdups (b @ c))))"
  for a b c :: "int list"
  by (rule sorted_distinct_set_unique) (auto simp: Un_assoc)

lemma reindex_reindex:
  assumes "set old \<subseteq> set mid"
  shows "reindex_col mid new (reindex_col old mid col) = reindex_col old new col"
proof -
  let ?g = "\<lambda>k. case map_of (zip old col) k of None \<Rightarrow> None | Some v \<Rightarrow> v"
  have "(case map_of (zip mid (map ?g mid)) k of None \<Rightarrow> None | Some v \<Rightarrow> v) = ?g k" for k
  proof (cases "k \<in> set mid")
    case True
    then show ?thesis by (simp add: map_of_zip_map)
  next
    case False
    then have "k \<notin> set old" using assms by auto
    then have "k \<notin> fst ` set (zip old col)" by (auto dest: set_zip_leftD)
    then have "map_of (zip old col) k = None" by (simp add: map_of_eq_None_iff)
    then show ?thesis using False by (simp add: map_of_zip_map)
  qed
  then show ?thesis by (simp add: reindex_col_def)
qed

lemma join_outer_error: "join_outer a b = Inl e \<Longrightarrow> e = ValueError"
  by (auto simp: join_outer_def Let_def split: if_splits)

lemma join_outer_assoc:
  "join_outcomes (join_outer a b) (Inr c) = join_outcomes (Inr a) (join_outer b c)"
proof -
  let ?ab = "sort (remdups (index a @ index b))"
  let ?bc = "sort (remdups (index b @ index c))"
  let ?abc = "sort (remdups (?ab @ index c))"
  have idx: "sort (remdups (index a @ ?bc)) = ?abc" by (simp add: sort_remdups_assoc)
  have ra: "reindex_col ?ab ?abc (reindex_col (index a) ?ab col) = reindex_col (index a) ?abc col"
    and rb: "reindex_col ?ab ?abc (reindex_col (index b) ?ab col) = reindex_col (index b) ?abc col"
    and rb': "reindex_col ?bc ?abc (reindex_col (index b) ?bc col) = reindex_col (index b) ?abc col"
    and rc: "reindex_col ?bc ?abc (reindex_col (index c) ?bc col) = reindex_col (index c) ?abc col"
    for col
    by (rule reindex_reindex, simp)+
  show ?thesis
    by (auto simp: join_outer_def Let_def list_ex_iff idx ra rb rb' rc comp_def)
qed

lemma join_outcomes_error:
  assumes "\<And>e. a = Inl e \<Longrightarrow> e = ValueError" and "\<And>e. b = Inl e \<Longrightarrow> e = ValueError"
    and "join_outcomes a b = Inl e"
  shows "e = ValueError"
  using assms by (cases a; cases b) (auto dest: join_outer_error)

lemma join_outcomes_assoc:
  assumes "\<And>e. a = Inl e \<Longrightarrow> e = ValueError" and "\<And>e. b = Inl e \<Longrightarrow> e = ValueError"
    and "\<And>e. c = Inl e \<Longrightarrow> e = ValueError"
  shows "join_outcomes (join_outcomes a b) c = join_outcomes a (join_outcomes b c)"
proof (cases a)
  case (Inl e)
  then show ?thesis by simp
next
  case a: (Inr x)
  show ?thesis
  proof (cases b)
    case (Inl e)
    then show ?thesis using a by simp
  next
    case b: (Inr y)
    show ?thesis
    proof (cases c)
      case (Inl e)
      then have "c = Inl ValueError" using assms(3) by simp
      moreover have "join_outcomes (join_outer x y) (Inl ValueError) = Inl ValueError"
        by (cases "join_outer x y") (auto dest: join_outer_error)
      ultimately show ?thesis using a b by simp
    next
      case (Inr z)
      then show ?thesis using a b by (simp add: join_outer_assoc)
    qed
  qed
qed

lemma foldl_join_outcomes_Inl: "foldl join_outcomes (Inl e) rs = Inl e"
  by (induction rs) simp_all

lemma reduce_join_outer:
  "reduce join_outer (x # xs) = foldl join_outcomes (Inr x) (map Inr xs)"
proof (induction xs arbitrary: x)
  case Nil
  then show ?case by simp
next
  case (Cons y ys)
  then show ?case
    by (cases "join_outer x y") (simp_all add: foldl_join_outcomes_Inl)
qed

lemma foldl_join_outcomes_error:
  assumes "\<And>e. a = Inl e \<Longrightarrow> e = ValueError"
    and "foldl join_outcomes a (map Inr xs) = Inl e"
  shows "e = ValueError"
  using assms
proof (induction xs arbitrary: a)
  case Nil
  then show ?case by simp
next
  case (Cons x xs)
  have "\<And>e. join_outcomes a (Inr x) = Inl e \<Longrightarrow> e = ValueError"
    using Cons.prems(1) by (cases a) (auto dest: join_outer_error)
  then show ?case using Cons.IH[of "join_outcomes a (Inr x)"] Cons.prems(2) by simp
qed

lemma foldl_join_outcomes_Inr_error:
  "foldl join_outcomes (Inr x) (map Inr xs) = Inl e \<Longrightarrow> e = ValueError"
  using foldl_join_outcomes_error[of "Inr x" xs e] by simp

lemma functional_outer_join_error:
  "xs \<noteq> [] \<Longrightarrow> functional_outer_join xs = Inl e \<Longrightarrow> e = ValueError"
  by (cases xs) (auto simp: functional_outer_join_def reduce_join_outer
      dest: foldl_join_outcomes_Inr_error)

lemma foldl_join_outcomes_Cons:
  assumes "\<And>e. a = Inl e \<Longrightarrow> e = ValueError"
  shows "foldl join_outcomes a (Inr c # map Inr cs) =
           join_outcomes a (foldl join_outcomes (Inr c) (map Inr cs))"
  using assms
proof (induction cs arbitrary: a c rule: rev_induct)
  case Nil
  then show ?case by simp
next
  case (snoc d cs)
  have ok: "\<And>e. foldl join_outcomes (Inr c) (map Inr cs) = Inl e \<Longrightarrow> e = ValueError"
    by (rule foldl_join_outcomes_Inr_error)
  have "foldl join_outcomes a (Inr c # map Inr (cs @ [d])) =
        join_outcomes (foldl join_outcomes a (Inr c # map Inr cs)) (Inr d)"
    by simp
  also have "\<dots> = join_outcomes (join_outcomes a (foldl join_outcomes (Inr c) (map Inr cs))) (Inr d)"
    using snoc.IH[OF snoc.prems] by simp
  also have "\<dots> = join_outcomes a (join_outcomes (foldl join_outcomes (Inr c) (map Inr cs)) (Inr d))"
    by (rule join_outcomes_assoc) (use snoc.prems ok in auto)
  finally show ?case by simp
qed

lemma functional_outer_join_append:
  assumes "xs \<noteq> []" and "ys \<noteq> []"
  shows "functional_outer_join (xs @ ys) =
           join_outcomes (functional_outer_join xs) (functional_outer_join ys)"
proof -
  obtain x xs' where xs: "xs = x # xs'" using assms(1) by (cases xs) auto
  obtain y ys' where ys: "ys = y # ys'" using assms(2) by (cases ys) auto
  have ok: "\<And>e. foldl join_outcomes (Inr x) (map Inr xs') = Inl e \<Longrightarrow> e = ValueError"
    by (rule foldl_join_outcomes_Inr_error)
  have "functional_outer_join (xs @ ys) =
        foldl join_outcomes (foldl join_outcomes (Inr x) (map Inr xs')) (Inr y # map Inr ys')"
    by (simp add: functional_outer_join_def xs ys reduce_join_outer)
  also have "\<dots> = join_outcomes (foldl join_outcomes (Inr x) (map Inr xs'))
                       (foldl join_outcomes (Inr y) (map Inr ys'))"
    using ok by (rule foldl_join_outcomes_Cons)
  finally show ?thesis
    by (simp add: functional_outer_join_def xs ys reduce_join_outer)
qed

lemma evens_Suc_Suc:
  "filter even [0..<Suc (Suc n)] = 0 # map (\<lambda>i. Suc (Suc i)) (filter even [0..<n])"
proof -
  have "[0..<Suc (Suc n)] = 0 # [Suc 0..<Suc (Suc n)]"
    by (rule upt_conv_Cons) simp
  also have "[Suc 0..<Suc (Suc n)] = Suc 0 # [Suc (Suc 0)..<Suc (Suc n)]"
    by (rule upt_conv_Cons) simp
  also have "[Suc (Suc 0)..<Suc (Suc n)] = map (\<lambda>i. Suc (Suc i)) [0..<n]"
    by (simp only: map_Suc_upt[symmetric] map_map comp_def)
  finally have "[0..<Suc (Suc n)] = 0 # Suc 0 # map (\<lambda>i. Suc (Suc i)) [0..<n]" .
  then show ?thesis by (simp add: filter_map comp_def del: upt_Suc)
qed

lemma join_aux_Cons_Cons: "join_aux (Suc (Suc i)) (x # y # rest) = join_aux i rest"
  by (simp add: join_aux_def)

lemma join_aux_0_pair: "join_aux 0 (x # y # rest) = join_outer x y"
  by (simp add: join_aux_def)

lemma join_round_Nil: "join_round [] = Inr []"
  by (simp add: join_round_def)

lemma join_round_single: "join_round [x] = Inr [x]"
  by (simp add: join_round_def join_aux_def)

lemma join_round_Cons_Cons:
  "join_round (x # y # rest) =
     (case join_outer x y of
        Inl e \<Rightarrow> Inl e
      | Inr v \<Rightarrow> (case join_round rest of Inl e \<Rightarrow> Inl e | Inr vs \<Rightarrow> Inr (v # vs)))"
proof -
  have "join_round (x # y # rest) =
      collect (map (\<lambda>i. join_aux i (x # y # rest)) (filter even [0..<Suc (Suc (length rest))]))"
    by (simp add: join_round_def del: upt_Suc)
  also have "\<dots> = collect (join_aux 0 (x # y # rest) #
               map (\<lambda>i. join_aux (Suc (Suc i)) (x # y # rest)) (filter even [0..<length rest]))"
    by (simp only: evens_Suc_Suc list.map map_map comp_def)
  also have "\<dots> = collect (join_outer x y # map (\<lambda>i. join_aux i rest) (filter even [0..<length rest]))"
    by (simp only: join_aux_Cons_Cons join_aux_0_pair)
  finally show ?thesis
    by (cases "join_outer x y") (simp_all add: join_round_def)
qed

lemma functional_outer_join_single: "functional_outer_join [x] = Inr x"
  by (simp add: functional_outer_join_def)

lemma functional_outer_join_pair: "functional_outer_join [x, y] = join_outer x y"
  by (cases "join_outer x y") (simp_all add: functional_outer_join_def)

lemma join_round_preserves:
  "l \<noteq> [] \<Longrightarrow>
     (case join_round l of
        Inl e \<Rightarrow> functional_outer_join l = Inl e
      | Inr l' \<Rightarrow> l' \<noteq> [] \<and> length l' = (length l + 1) div 2 \<and>
                 functional_outer_join l' = functional_outer_join l)"
proof (induction l rule: induct_list012)
  case 1
  then show ?case by simp
next
  case (2 x)
  then show ?case by (simp add: join_round_single)
next
  case (3 x y zs)
  show ?case
  proof (cases "join_outer x y")
    case (Inl e)
    then show ?thesis
      by (simp add: join_round_Cons_Cons functional_outer_join_def)
  next
    case (Inr v)
    show ?thesis
    proof (cases "zs = []")
      case True
      then show ?thesis
        using Inr by (simp add: join_round_Cons_Cons join_round_Nil
            functional_outer_join_single functional_outer_join_pair)
    next
      case False
      have whole: "functional_outer_join (x # y # zs) =
                     join_outcomes (Inr v) (functional_outer_join zs)"
        using functional_outer_join_append[of "[x, y]" zs] False Inr
        by (simp add: functional_outer_join_pair)
      show ?thesis
      proof (cases "join_round zs")
        case (Inl e)
        then have "functional_outer_join zs = Inl e" using "3.IH"(1) False by simp
        then show ?thesis using Inl Inr whole by (simp add: join_round_Cons_Cons)
      next
        case r: (Inr vs)
        then have vs: "vs \<noteq> []" "length vs = (length zs + 1) div 2"
          "functional_outer_join vs = functional_outer_join zs"
          using "3.IH"(1) False by simp_all
        have "functional_outer_join (v # vs) =
                join_outcomes (Inr v) (functional_outer_join vs)"
          using functional_outer_join_append[of "[v]" vs] vs(1)
          by (simp add: functional_outer_join_single)
        then show ?thesis
          using r Inr whole vs by (simp add: join_round_Cons_Cons)
      qed
    qed
  qed
qed

lemma join_loop_value: "l \<noteq> [] \<Longrightarrow> join_loop l = Some (functional_outer_join l)"
proof (induction l rule: length_induct)
  case (1 l)
  show ?case
  proof (cases "length l = 1")
    case True
    then obtain x where "l = [x]" by (cases l) auto
    then show ?thesis by (simp add: join_loop.simps functional_outer_join_single)
  next
    case False
    moreover have "length l \<noteq> 0" using "1.prems" by simp
    ultimately have long: "2 \<le> length l" by linarith
    show ?thesis
    proof (cases "join_round l")
      case (Inl e)
      then show ?thesis
        using join_round_preserves[OF "1.prems"] False by (simp add: join_loop.simps)
    next
      case (Inr l')
      then have l': "l' \<noteq> []" "length l' = (length l + 1) div 2"
        "functional_outer_join l' = functional_outer_join l"
        using join_round_preserves[OF "1.prems"] by simp_all
      have "length l' < length l" using l'(2) long by linarith
      then have "join_loop l' = Some (functional_outer_join l')"
        using "1.IH" l'(1) by simp
      then show ?thesis
        using Inr False l'(3) by (subst join_loop.simps) simp
    qed
  qed
qed

lemma join_rounds_equal_fold:
  assumes "df_list \<noteq> []"
  shows "iterative_outer_join_second (Some (map Some df_list)) =
           Some (map_sum id Some (functional_outer_join df_list))"
proof -
  have f: "map the (filter (\<lambda>i. i \<noteq> None) (map Some df_list)) = df_list"
    by (induction df_list) simp_all
  show ?thesis
  proof (cases "length df_list = 1")
    case True
    then obtain x where "df_list = [x]" by (cases df_list) auto
    then show ?thesis
      by (simp add: iterative_outer_join_second_def functional_outer_join_single)
  next
    case False
    then show ?thesis
      using assms join_loop_value[OF assms]
      by (simp add: iterative_outer_join_second_def f Let_def)
  qed
qed

lemma outer_join_three:
  "functional_outer_join [t1, t2, t3] =
     (case functional_outer_join [t1, t2] of
        Inl e \<Rightarrow> Inl e | Inr m \<Rightarrow> functional_outer_join [m, t3])"
  "functional_outer_join [t1, t2, t3] =
     (case functional_outer_join [t2, t3] of
        Inl e \<Rightarrow> Inl e | Inr m \<Rightarrow> functional_outer_join [t1, m])"
proof -
  have "functional_outer_join [t1, t2, t3] =
      (case join_outer t1 t2 of Inl e \<Rightarrow> Inl e | Inr v \<Rightarrow> functional_outer_join [v, t3])"
    unfolding functional_outer_join_def by (rule reduce.simps(3))
  then have l: "functional_outer_join [t1, t2, t3] = join_outcomes (join_outer t1 t2) (Inr t3)"
    by (cases "join_outer t1 t2") (simp_all add: functional_outer_join_pair)
  show "functional_outer_join [t1, t2, t3] =
     (case functional_outer_join [t1, t2] of
        Inl e \<Rightarrow> Inl e | Inr m \<Rightarrow> functional_outer_join [m, t3])"
    unfolding l by (cases "join_outer t1 t2") (simp_all add: functional_outer_join_pair)
  have "functional_outer_join [t1, t2, t3] = join_outcomes (Inr t1) (join_outer t2 t3)"
    unfolding l by (rule join_outer_assoc)
  then show "functional_outer_join [t1, t2, t3] =
     (case functional_outer_join [t2, t3] of
        Inl e \<Rightarrow> Inl e | Inr m \<Rightarrow> functional_outer_join [t1, m])"
    by (cases "join_outer t2 t3") (simp_all add: functional_outer_join_pair)
qed

lemma three_tables_joined:
  "functional_outer_join [entry_signal, late_table, sparse_table] =
     Inr \<lparr>index = [0, 1, 2, 3], columns = [Name ''x'', Name ''y'', Name ''z''],
          data = [[Some 0, Some 1, Some 1, None],
                  [None, Some 5, None, Some 6],
                  [Some 7, None, None, Some 8]]\<rparr>"
  by (simp add: functional_outer_join_def join_outer_def reindex_col_def entry_signal_def
      late_table_def sparse_table_def)

text \<open>
  C1: the two strategies do not agree on every list. On the empty list
  \<^verbatim>\<open>functional_outer_join\<close> raises TypeError (\<^verbatim>\<open>reduce\<close> of an empty sequence), while
  \<^verbatim>\<open>iterative_outer_join_second\<close> returns \<^verbatim>\<open>None\<close>. On every non-empty list of tables
  the rounds that pair adjacent tables (the last one carried through when unpaired) end
  and give what the left-to-right fold gives, the same table or the same error; and the
  join of three tables is the join of the first two with the third and of the first with
  the join of the last two.
\<close>

theorem outer_join_strategies:
  "functional_outer_join [] = Inl TypeError \<and>
   iterative_outer_join_second (Some []) = Some (Inr None) \<and>
   (df_list \<noteq> [] \<longrightarrow>
      iterative_outer_join_second (Some (map Some df_list)) =
        Some (map_sum id Some (functional_outer_join df_list))) \<and>
   functional_outer_join [t1, t2, t3] =
     (case functional_outer_join [t1, t2] of
        Inl e \<Rightarrow> Inl e | Inr m \<Rightarrow> functional_outer_join [m, t3]) \<and>
   functional_outer_join [t1, t2, t3] =
     (case functional_outer_join [t2, t3] of
        Inl e \<Rightarrow> Inl e | Inr m \<Rightarrow> functional_outer_join [t1, m])"
proof -
  have "functional_outer_join [] = Inl TypeError"
    by (simp add: functional_outer_join_def)
  moreover have "iterative_outer_join_second (Some []) = Some (Inr None)"
    by (simp add: iterative_outer_join_second_def)
  ultimately show ?thesis
    using join_rounds_equal_fold[of df_list] outer_join_three[of t1 t2 t3] by blast
qed

theorem outer_join_strategies_witness:
  "iterative_outer_join_second (Some (map Some [entry_signal, late_table, sparse_table])) =
     Some (Inr (Some
       \<lparr>index = [0, 1, 2, 3], columns = [Name ''x'', Name ''y'', Name ''z''],
        data = [[Some 0, Some 1, Some 1, None],
                [None, Some 5, None, Some 6],
                [Some 7, None, None, Some 8]]\<rparr>))"
proof -
  have "[entry_signal, late_table, sparse_table] \<noteq> []" by simp
  then have "iterative_outer_join_second (Some (map Some [entry_signal, late_table, sparse_table])) =
      Some (map_sum id Some (functional_outer_join [entry_signal, late_table, sparse_table]))"
    using outer_join_strategies[of "[entry_signal, late_table, sparse_table]"] by blast
  then show ?thesis unfolding three_tables_joined by simp
qed


section \<open>The tables of the caller after a call\<close>

lemma unchanged_refl [simp]: "unchanged h h"
  by (simp add: unchanged_def)

lemma unchanged_append [simp]: "unchanged h (h @ t)"
  by (simp add: unchanged_def)










text \<open>
  With a column labelled \<^verbatim>\<open>columnsii\<close> the returns table of the caller does not stay as
  it was: on the signal \<open>[1, NaN]\<close> the call leaves it with the labels \<^verbatim>\<open>x\<close> and
  \<^verbatim>\<open>xcumsum\<close>.
\<close>

lemma cum_rets_trades_relabels:
  "snd (calculate_cum_rets_trades gap_signal columnsii_returns) =
     \<lparr>index = [0, 1], columns = [Name ''x'', Name ''xcumsum''],
      data = [[None, None], [None, None]]\<rparr>"
  by (simp add: calculate_cum_rets_trades_def df_getattr_def df_getitem_def df_set_columns_def
      df_shift_def Let_def group_step_def df_setitem_def df_drop_def reset_points_def
      trade_points_def df_cumsum_def df_abs_def df_sub_def df_op_def gap_signal_def
      columnsii_returns_def shift_col_def col_op_def cell_sub_def cell_abs_def cumsum_col_def)





end
